theory Spec2Isabelle
  imports
    Main
    "HOL-Library.Word"
    "HOL-Library.Char_ord"
    "HOL-Library.List_Lexorder"
    "HOL-Library.AList"
begin

section \<open>The root multi-store of \<^verbatim>\<open>store/rootmulti/store.go\<close>\<close>

text \<open>
  The multi-store aggregates named substores, commits them in lock-step and records one
  commit-info per version. This theory embeds the functions of \<^verbatim>\<open>store.go\<close>:
  Go structs are records, Go maps are association lists with distinct keys (the list
  order stands for the iteration order of the map, which Go leaves open), \<^verbatim>\<open>int64\<close>
  is \<^typ>\<open>64 word\<close>, byte slices and strings are \<^typ>\<open>string\<close> (a list of 8-bit
  characters), and every error return or panic is a value of the result.

  Code that \<^verbatim>\<open>store.go\<close> calls but that lives in other packages (the hash function, the
  simple Merkle tree, the binary codec, the tree engine behind a versioned substore, the
  persistent cache, the error envelope) is taken as a parameter: the record \<open>env\<close>
  below holds one field per such dependency, and every theorem holds for all of them.
\<close>

subsection \<open>Data model\<close>

type_synonym bytes = string

type_synonym int64 = "64 word"

record CommitID =
  Version :: int64
  Hash :: bytes

text \<open>The zero value \<^verbatim>\<open>types.CommitID{}\<close>.\<close>

definition zeroCommitID :: CommitID where
  "zeroCommitID = \<lparr>Version = 0, Hash = []\<rparr>"

record storeCore =
  CommitID :: CommitID

record storeInfo =
  Name :: string
  Core :: storeCore

record commitInfo =
  Version :: int64
  StoreInfos :: "storeInfo list"

datatype StoreType =
  StoreTypeMulti | StoreTypeDB | StoreTypeIAVL | StoreTypeTransient | StoreTypeUnknown

text \<open>
  A \<^verbatim>\<open>types.StoreKey\<close> is an interface value holding a pointer to a key object: two keys
  are the same map key when they have the same dynamic type and the same address. The
  address is the first argument, the name the object carries the second.
\<close>

datatype StoreKey = KVStoreKey nat string | TransientStoreKey nat string

fun key_Name :: "StoreKey \<Rightarrow> string" where
  "key_Name (KVStoreKey a n) = n"
| "key_Name (TransientStoreKey a n) = n"

fun key_addr :: "StoreKey \<Rightarrow> nat" where
  "key_addr (KVStoreKey a n) = a"
| "key_addr (TransientStoreKey a n) = a"

text \<open>
  What this file sees of a substore object (an \<^verbatim>\<open>iavl.Store\<close>, a
  \<^verbatim>\<open>commitDBStoreAdapter\<close> or a \<^verbatim>\<open>transient.Store\<close>): its type, its key/value
  pairs and its last commit id.
\<close>

record substore =
  GetStoreType :: StoreType
  entries :: "(bytes \<times> bytes) list"
  LastCommitID :: CommitID

datatype dbhandle = RootDB | CustomDB nat

datatype backend = NewPrefixDB dbhandle bytes

record storeParams =
  key :: StoreKey
  db :: "dbhandle option"
  typ' :: StoreType

text \<open>
  The backend \<^verbatim>\<open>rs.db\<close> as far as the multi-store itself uses it: the records under
  \<^verbatim>\<open>s/latest\<close> and \<^verbatim>\<open>s/<version>\<close>. A read of a key may fail, and so may the write of a
  batch; a batch is written as a whole or not at all.
\<close>

record DB =
  cells :: "bytes \<rightharpoonup> bytes"
  readError :: "bytes \<rightharpoonup> string"
  writeError :: "string option"

type_synonym Batch = "(bytes \<times> bytes) list"

type_synonym ExportItem = bytes

record SnapshotChunk =
  Store :: string
  Version :: int64
  Items :: "ExportItem list"

record StoreRename =
  OldKey :: string
  NewKey :: string

record StoreUpgrades =
  Renamed :: "StoreRename list"
  Deleted :: "string list"

datatype ProofOp = SubstoreProofOp bytes | MultiStoreProofOp bytes "storeInfo list"

record RequestQuery =
  Data :: bytes
  Path :: string
  Height :: int64
  Prove :: bool

record ResponseQuery =
  Code :: nat
  Log :: string
  Value :: bytes
  Proof :: "ProofOp list option"
  Height :: int64

datatype sdkerror = ErrUnknownRequest | ErrInvalidRequest

text \<open>An error built by \<^verbatim>\<open>sdkerrors.Wrapf\<close>: the registered error and the description.\<close>

datatype queryError = Wrapf sdkerror string

text \<open>
  A Go \<^verbatim>\<open>error\<close> that is returned, with its message, or a panic, with its value.
\<close>

datatype failure = Error string | Panic string

subsection \<open>Dependencies outside \<^verbatim>\<open>store.go\<close>\<close>

text \<open>
  \<^item> \<open>tmhash\<close>: \<^verbatim>\<open>tmhash.New()\<close>, one \<^verbatim>\<open>Write\<close> and \<^verbatim>\<open>Sum(nil)\<close>; the \<^verbatim>\<open>Write\<close> of a
    hash never returns an error.
  \<^item> \<open>merkleRoot\<close>: the simple Merkle root over a sequence of key/value pairs.
  \<^item> \<open>MarshalInt64\<close>, \<open>UnmarshalInt64\<close>, \<open>MarshalCommitInfo\<close>,
    \<open>UnmarshalCommitInfo\<close>: \<^verbatim>\<open>cdc.MarshalBinaryLengthPrefixed\<close> and
    \<^verbatim>\<open>cdc.UnmarshalBinaryLengthPrefixed\<close> at the two types they are used at.
  \<^item> \<open>iavl_LoadStore\<close>, \<open>dbadapter_Store\<close>: the substore a backend view holds, at a
    commit id.
  \<^item> \<open>engine_Commit\<close>: the commit id a versioned or raw substore returns from
    \<^verbatim>\<open>Commit()\<close>.
  \<^item> \<open>Unwrap\<close>, \<open>GetStoreCache\<close>: the two methods of
    \<^verbatim>\<open>types.MultiStorePersistentCache\<close>, over a cache state of type \<open>'c\<close>; the stores
    they return are addresses of substore objects.
  \<^item> \<open>Queryable\<close>: the \<^verbatim>\<open>Query\<close> method of a substore that implements
    \<^verbatim>\<open>types.Queryable\<close>.
  \<^item> \<open>RequireProof\<close>, \<open>QueryResult\<close>: \<^verbatim>\<open>RequireProof\<close> of this package and
    \<^verbatim>\<open>sdkerrors.QueryResult\<close>.
  \<^item> \<open>gobDecode\<close>, \<open>iavl_Import\<close>: the decoder of a snapshot chunk and
    \<^verbatim>\<open>(*iavl.Store).Import\<close>.
\<close>

record 'c env =
  tmhash :: "bytes \<Rightarrow> bytes"
  merkleRoot :: "(string \<times> bytes) list \<Rightarrow> bytes"
  MarshalInt64 :: "int64 \<Rightarrow> bytes"
  UnmarshalInt64 :: "bytes \<Rightarrow> string + int64"
  MarshalCommitInfo :: "commitInfo \<Rightarrow> string + bytes"
  UnmarshalCommitInfo :: "bytes \<Rightarrow> string + commitInfo"
  iavl_LoadStore :: "backend \<Rightarrow> CommitID \<Rightarrow> string + substore"
  dbadapter_Store :: "backend \<Rightarrow> substore"
  engine_Commit :: "substore \<Rightarrow> CommitID"
  Unwrap :: "'c \<Rightarrow> StoreKey \<Rightarrow> nat option"
  GetStoreCache :: "'c \<Rightarrow> StoreKey \<Rightarrow> nat \<Rightarrow> nat \<times> 'c"
  Queryable :: "substore \<Rightarrow> (RequestQuery \<Rightarrow> failure + ResponseQuery) option"
  RequireProof :: "string \<Rightarrow> bool"
  QueryResult :: "queryError option \<Rightarrow> ResponseQuery"
  gobDecode :: "bytes \<Rightarrow> string + SnapshotChunk"
  iavl_Import :: "substore \<Rightarrow> int64 \<Rightarrow> ExportItem list \<Rightarrow> string option \<times> substore"

text \<open>
  The multi-store. \<open>stores\<close> maps a key to the address of a substore object and
  \<open>objects\<close> is the heap of these objects, so that a substore reached through the
  persistent cache and the same substore reached through \<open>stores\<close> are one object.
  \<open>nextAddr\<close> is the next address the allocator hands out, to a key object or to a
  substore object. The pruning options, the lazy-loading flag and the tracer are only
  handed on to the substores and are left out.
\<close>

record 'c Store =
  db :: DB
  lastCommitID :: CommitID
  storesParams :: "(StoreKey \<times> storeParams) list"
  stores :: "(StoreKey \<times> nat) list"
  keysByName :: "(string \<times> StoreKey) list"
  interBlockCache :: "'c option"
  objects :: "nat \<Rightarrow> substore"
  nextAddr :: nat

subsection \<open>Root hash of a commit-info\<close>

text \<open>
  \<^verbatim>\<open>merkle.SimpleHashFromMap\<close> is library code: it sorts the pairs of the map by key and
  returns the simple Merkle root over the sorted sequence. The Go map is an association
  list with distinct keys, in the order the map happens to be iterated in.
\<close>

definition SimpleHashFromMap :: "'c env \<Rightarrow> (string \<times> bytes) list \<Rightarrow> bytes" where
  "SimpleHashFromMap e m = merkleRoot e (sort_key fst m)"

definition storeInfo_Hash :: "'c env \<Rightarrow> storeInfo \<Rightarrow> bytes" where
  "storeInfo_Hash e si = (let bz = Hash (CommitID (Core si)) in tmhash e bz)"

definition commitInfo_Hash :: "'c env \<Rightarrow> commitInfo \<Rightarrow> bytes" where
  "commitInfo_Hash e ci =
     (let m = fold (\<lambda>storeInfo m. AList.update (Name storeInfo) (storeInfo_Hash e storeInfo) m)
                (StoreInfos ci) []
      in SimpleHashFromMap e m)"

definition commitInfo_CommitID :: "'c env \<Rightarrow> commitInfo \<Rightarrow> CommitID" where
  "commitInfo_CommitID e ci =
     \<lparr>CommitID.Version = commitInfo.Version ci, Hash = commitInfo_Hash e ci\<rparr>"

text \<open>
  The root hash as the specification words it: the map from store name to the hash of
  the commit-id hash, and the simple Merkle root over that map sorted by key.
\<close>

definition spec_leaves :: "'c env \<Rightarrow> commitInfo \<Rightarrow> (string \<rightharpoonup> bytes)" where
  "spec_leaves e ci =
     fold (\<lambda>si m. m(Name si \<mapsto> tmhash e (Hash (CommitID (Core si))))) (StoreInfos ci) Map.empty"

definition spec_simple_merkle_root_from_map :: "'c env \<Rightarrow> (string \<rightharpoonup> bytes) \<Rightarrow> bytes" where
  "spec_simple_merkle_root_from_map e m =
     merkleRoot e (map (\<lambda>k. (k, the (m k))) (sorted_list_of_set (dom m)))"

subsection \<open>The commit-info records of the backend\<close>

definition latestVersionKey :: bytes where
  "latestVersionKey = ''s/latest''"

text \<open>\<^verbatim>\<open>fmt.Sprintf("%d", v)\<close>: the decimal digits, after a minus sign when negative.\<close>

fun digits :: "nat \<Rightarrow> string" where
  "digits n =
     (if n < 10 then [''0123456789'' ! n]
      else digits (n div 10) @ [''0123456789'' ! (n mod 10)])"

declare digits.simps [simp del]

definition Sprintf_d :: "int \<Rightarrow> string" where
  "Sprintf_d i = (if i < 0 then ''-'' @ digits (nat (- i)) else digits (nat i))"

text \<open>\<^verbatim>\<open>fmt.Sprintf(commitInfoKeyFmt, ver)\<close> with the format \<^verbatim>\<open>s/%d\<close>.\<close>

definition commitInfoKey :: "int64 \<Rightarrow> bytes" where
  "commitInfoKey ver = ''s/'' @ Sprintf_d (sint ver)"

definition db_Get :: "DB \<Rightarrow> bytes \<Rightarrow> string + bytes option" where
  "db_Get d k = (case readError d k of Some err \<Rightarrow> Inl err | None \<Rightarrow> Inr (cells d k))"

definition batch_Set :: "Batch \<Rightarrow> bytes \<Rightarrow> bytes \<Rightarrow> Batch" where
  "batch_Set batch k v = batch @ [(k, v)]"

text \<open>
  \<^verbatim>\<open>batch.Write()\<close>: all writes of the batch in their order, or none of them and an
  error.
\<close>

definition batch_Write :: "DB \<Rightarrow> Batch \<Rightarrow> string option \<times> DB" where
  "batch_Write d batch =
     (case writeError d of
        Some err \<Rightarrow> (Some err, d)
      | None \<Rightarrow> (None, d\<lparr>cells := fold (\<lambda>(k, v) m. m(k \<mapsto> v)) batch (cells d)\<rparr>))"

definition getLatestVersion :: "'c env \<Rightarrow> DB \<Rightarrow> failure + int64" where
  "getLatestVersion e d =
     (case db_Get d latestVersionKey of
        Inl err \<Rightarrow> Inl (Panic err)
      | Inr None \<Rightarrow> Inr 0
      | Inr (Some latestBytes) \<Rightarrow>
          (case UnmarshalInt64 e latestBytes of
             Inl err \<Rightarrow> Inl (Panic err)
           | Inr latest \<Rightarrow> Inr latest))"

definition setLatestVersion :: "'c env \<Rightarrow> Batch \<Rightarrow> int64 \<Rightarrow> Batch" where
  "setLatestVersion e batch version =
     (let latestBytes = MarshalInt64 e version
      in batch_Set batch latestVersionKey latestBytes)"

definition getCommitInfo :: "'c env \<Rightarrow> DB \<Rightarrow> int64 \<Rightarrow> string + commitInfo" where
  "getCommitInfo e d ver =
     (let cInfoKey = commitInfoKey ver in
      case db_Get d cInfoKey of
        Inl err \<Rightarrow> Inl (''failed to get commit info: '' @ err)
      | Inr None \<Rightarrow> Inl ''failed to get commit info: no data''
      | Inr (Some cInfoBytes) \<Rightarrow>
          (case UnmarshalCommitInfo e cInfoBytes of
             Inl err \<Rightarrow> Inl (''failed to get Store: '' @ err)
           | Inr cInfo \<Rightarrow> Inr cInfo))"

text \<open>\<^verbatim>\<open>cdc.MustMarshalBinaryLengthPrefixed\<close> panics when the codec returns an error.\<close>

definition setCommitInfo :: "'c env \<Rightarrow> Batch \<Rightarrow> int64 \<Rightarrow> commitInfo \<Rightarrow> failure + Batch" where
  "setCommitInfo e batch version cInfo =
     (case MarshalCommitInfo e cInfo of
        Inl err \<Rightarrow> Inl (Panic err)
      | Inr cInfoBytes \<Rightarrow>
          (let cInfoKey = commitInfoKey version
           in Inr (batch_Set batch cInfoKey cInfoBytes)))"

subsection \<open>Commit\<close>

text \<open>
  Modelled from the spec: \<^verbatim>\<open>Commit()\<close> of a substore, which the packages of the substore
  variants define. A transient substore discards its contents on every commit. A
  versioned or raw substore keeps its contents and returns the commit id of its engine,
  which is then its last commit id.
\<close>

definition substore_Commit :: "'c env \<Rightarrow> substore \<Rightarrow> CommitID \<times> substore" where
  "substore_Commit e s =
     (if GetStoreType s = StoreTypeTransient then (zeroCommitID, s\<lparr>entries := []\<rparr>)
      else (let commitID = engine_Commit e s in (commitID, s\<lparr>LastCommitID := commitID\<rparr>)))"

text \<open>
  The loop of \<^verbatim>\<open>commitStores\<close> over the store map, in the order the map is iterated
  in; \<open>objs\<close> is the heap of substore objects, \<open>storeInfos\<close> the slice built so far.
\<close>

fun commitStores_loop ::
  "'c env \<Rightarrow> (StoreKey \<times> nat) list \<Rightarrow> (nat \<Rightarrow> substore) \<Rightarrow> storeInfo list
     \<Rightarrow> storeInfo list \<times> (nat \<Rightarrow> substore)" where
  "commitStores_loop e [] objs storeInfos = (storeInfos, objs)"
| "commitStores_loop e ((skey, store) # rest) objs storeInfos =
     (let (commitID, s) = substore_Commit e (objs store);
          objs = objs(store := s)
      in if GetStoreType (objs store) = StoreTypeTransient
         then commitStores_loop e rest objs storeInfos
         else (let si = \<lparr>Name = key_Name skey, Core = \<lparr>CommitID = commitID\<rparr>\<rparr>
               in commitStores_loop e rest objs (storeInfos @ [si])))"

definition commitStores ::
  "'c env \<Rightarrow> int64 \<Rightarrow> (StoreKey \<times> nat) list \<Rightarrow> (nat \<Rightarrow> substore)
     \<Rightarrow> commitInfo \<times> (nat \<Rightarrow> substore)" where
  "commitStores e version storeMap objs =
     (let (storeInfos, objs) = commitStores_loop e storeMap objs []
      in (\<lparr>commitInfo.Version = version, StoreInfos = storeInfos\<rparr>, objs))"

text \<open>The entries of a store map whose substore is not transient.\<close>

definition nontransient :: "(nat \<Rightarrow> substore) \<Rightarrow> StoreKey \<times> nat \<Rightarrow> bool" where
  "nontransient objs p = (GetStoreType (objs (snd p)) \<noteq> StoreTypeTransient)"

text \<open>
  \<^verbatim>\<open>Commit\<close> returns the commit id and leaves the multi-store updated, or panics. The
  error \<^verbatim>\<open>batch.Write()\<close> returns is dropped, as in the source.
\<close>

definition Commit :: "'c env \<Rightarrow> 'c Store \<Rightarrow> failure + (CommitID \<times> 'c Store)" where
  "Commit e rs =
     (let version = CommitID.Version (lastCommitID rs) + 1;
          (commitInfo, objs) = commitStores e version (stores rs) (objects rs);
          batch = []
      in case setCommitInfo e batch version commitInfo of
           Inl p \<Rightarrow> Inl p
         | Inr batch \<Rightarrow>
             (let batch = setLatestVersion e batch version;
                  (werr, d) = batch_Write (Store.db rs) batch;
                  commitID = \<lparr>CommitID.Version = version, Hash = commitInfo_Hash e commitInfo\<rparr>
              in Inr (commitID, rs\<lparr>Store.db := d, lastCommitID := commitID, objects := objs\<rparr>)))"

subsection \<open>Store lookup\<close>

text \<open>
  \<^verbatim>\<open>GetCommitKVStore\<close> returns the address of a substore object, or \<open>None\<close> for the nil
  interface value: the persistent cache is asked first, the live map second.
\<close>

definition GetCommitKVStore :: "'c env \<Rightarrow> 'c Store \<Rightarrow> StoreKey \<Rightarrow> nat option" where
  "GetCommitKVStore e rs skey =
     (case interBlockCache rs of
        Some c \<Rightarrow>
          (case Unwrap e c skey of
             Some store \<Rightarrow> Some store
           | None \<Rightarrow> map_of (stores rs) skey)
      | None \<Rightarrow> map_of (stores rs) skey)"

definition GetStore :: "'c env \<Rightarrow> 'c Store \<Rightarrow> StoreKey \<Rightarrow> failure + nat" where
  "GetStore e rs skey =
     (case GetCommitKVStore e rs skey of
        None \<Rightarrow> Inl (Panic (''store does not exist for key: '' @ key_Name skey))
      | Some store \<Rightarrow> Inr store)"

definition getStoreByName :: "'c env \<Rightarrow> 'c Store \<Rightarrow> string \<Rightarrow> nat option" where
  "getStoreByName e rs name =
     (case map_of (keysByName rs) name of
        None \<Rightarrow> None
      | Some skey \<Rightarrow> GetCommitKVStore e rs skey)"

text \<open>
  \<^verbatim>\<open>types.NewKVStoreKey(name)\<close> allocates a key object: its address is the next free one.
\<close>

definition NewKVStoreKey :: "'c Store \<Rightarrow> string \<Rightarrow> StoreKey \<times> 'c Store" where
  "NewKVStoreKey rs name = (KVStoreKey (nextAddr rs) name, rs\<lparr>nextAddr := nextAddr rs + 1\<rparr>)"

text \<open>A new substore object on the heap.\<close>

definition new_object :: "'c Store \<Rightarrow> substore \<Rightarrow> nat \<times> 'c Store" where
  "new_object rs s =
     (nextAddr rs, rs\<lparr>objects := (objects rs)(nextAddr rs := s), nextAddr := nextAddr rs + 1\<rparr>)"

subsection \<open>Loading and upgrades\<close>

text \<open>
  Modelled from the spec: the upgrade manifest and its two lookups, which
  \<^verbatim>\<open>store/types\<close> defines. A nil manifest deletes and renames nothing; \<open>RenamedFrom\<close> is
  the old name of the first rename to the given name, and the empty string without one.
\<close>

definition IsDeleted :: "StoreUpgrades option \<Rightarrow> string \<Rightarrow> bool" where
  "IsDeleted upgrades name =
     (case upgrades of None \<Rightarrow> False | Some s \<Rightarrow> name \<in> set (Deleted s))"

definition RenamedFrom :: "StoreUpgrades option \<Rightarrow> string \<Rightarrow> string" where
  "RenamedFrom upgrades name =
     (case upgrades of
        None \<Rightarrow> ''''
      | Some s \<Rightarrow>
          (case find (\<lambda>re. NewKey re = name) (Renamed s) of
             None \<Rightarrow> ''''
           | Some re \<Rightarrow> OldKey re))"

definition getCommitID :: "(string \<times> storeInfo) list \<Rightarrow> string \<Rightarrow> CommitID" where
  "getCommitID infos name =
     (case map_of infos name of
        None \<Rightarrow> zeroCommitID
      | Some info \<Rightarrow> CommitID (Core info))"

text \<open>
  The key/value interface of a substore: \<^verbatim>\<open>Iterator(nil, nil)\<close> runs over all pairs in
  ascending key order, \<^verbatim>\<open>Set\<close> and \<^verbatim>\<open>Delete\<close> write one key.
\<close>

definition Iterator :: "substore \<Rightarrow> (bytes \<times> bytes) list" where
  "Iterator kv = sort_key fst (entries kv)"

definition kv_Set :: "substore \<Rightarrow> bytes \<Rightarrow> bytes \<Rightarrow> substore" where
  "kv_Set kv k v = kv\<lparr>entries := AList.update k v (entries kv)\<rparr>"

definition kv_Delete :: "substore \<Rightarrow> bytes \<Rightarrow> substore" where
  "kv_Delete kv k = kv\<lparr>entries := AList.delete k (entries kv)\<rparr>"

text \<open>
  \<^verbatim>\<open>deleteKVStore\<close> and \<^verbatim>\<open>moveKVStoreData\<close> on the heap of substore objects; both always
  return a nil error.
\<close>

definition deleteKVStore :: "(nat \<Rightarrow> substore) \<Rightarrow> nat \<Rightarrow> (nat \<Rightarrow> substore)" where
  "deleteKVStore objs kv =
     (let keys = map fst (Iterator (objs kv))
      in fold (\<lambda>k objs. objs(kv := kv_Delete (objs kv) k)) keys objs)"

definition moveKVStoreData :: "(nat \<Rightarrow> substore) \<Rightarrow> nat \<Rightarrow> nat \<Rightarrow> (nat \<Rightarrow> substore)" where
  "moveKVStoreData objs oldDB newDB =
     (let objs = fold (\<lambda>(k, v) objs. objs(newDB := kv_Set (objs newDB) k v))
                   (Iterator (objs oldDB)) objs
      in deleteKVStore objs oldDB)"

text \<open>\<^verbatim>\<open>String()\<close> of a key object; the address is printed in decimal.\<close>

fun key_String :: "StoreKey \<Rightarrow> string" where
  "key_String (KVStoreKey a n) = ''KVStoreKey{'' @ Sprintf_d (int a) @ '', '' @ n @ ''}''"
| "key_String (TransientStoreKey a n) =
     ''TransientStoreKey{'' @ Sprintf_d (int a) @ '', '' @ n @ ''}''"

text \<open>
  \<^verbatim>\<open>loadCommitStoreFromParams\<close> returns the address of the substore object or fails, and
  leaves the heap and the persistent cache as the call left them. A transient store is
  new and empty.
\<close>

definition loadCommitStoreFromParams ::
  "'c env \<Rightarrow> 'c Store \<Rightarrow> StoreKey \<Rightarrow> CommitID \<Rightarrow> storeParams \<Rightarrow> (failure + nat) \<times> 'c Store" where
  "loadCommitStoreFromParams e rs skey cid params =
     (let d = (case storeParams.db params of
                 Some pdb \<Rightarrow> NewPrefixDB pdb ''s/_/''
               | None \<Rightarrow> NewPrefixDB RootDB (''s/k:'' @ key_Name (storeParams.key params) @ ''/''))
      in case typ' params of
           StoreTypeMulti \<Rightarrow> (Inl (Panic ''recursive MultiStores not yet supported''), rs)
         | StoreTypeIAVL \<Rightarrow>
             (case iavl_LoadStore e d cid of
                Inl err \<Rightarrow> (Inl (Error err), rs)
              | Inr s \<Rightarrow>
                  (let (store, rs) = new_object rs (s\<lparr>GetStoreType := StoreTypeIAVL\<rparr>)
                   in case interBlockCache rs of
                        None \<Rightarrow> (Inr store, rs)
                      | Some c \<Rightarrow>
                          (let (store, c) = GetStoreCache e c skey store
                           in (Inr store, rs\<lparr>interBlockCache := Some c\<rparr>))))
         | StoreTypeDB \<Rightarrow>
             (let (store, rs) = new_object rs ((dbadapter_Store e d)\<lparr>GetStoreType := StoreTypeDB\<rparr>)
              in (Inr store, rs))
         | StoreTypeTransient \<Rightarrow>
             (case skey of
                TransientStoreKey a n \<Rightarrow>
                  (let (store, rs) = new_object rs
                         \<lparr>GetStoreType = StoreTypeTransient, entries = [], LastCommitID = zeroCommitID\<rparr>
                   in (Inr store, rs))
              | KVStoreKey a n \<Rightarrow>
                  (Inl (Error (''invalid StoreKey for StoreTypeTransient: '' @ key_String skey)), rs))
         | StoreTypeUnknown \<Rightarrow> (Inl (Panic ''unrecognized store type''), rs))"

text \<open>\<^verbatim>\<open>fmt.Errorf(prefix + "%v", err)\<close> on an error; a panic passes through.\<close>

fun Errorf :: "string \<Rightarrow> failure \<Rightarrow> failure" where
  "Errorf prefix (Error err) = Error (prefix @ err)"
| "Errorf prefix (Panic p) = Panic p"

text \<open>
  The loop of \<^verbatim>\<open>loadVersion\<close> over \<^verbatim>\<open>rs.storesParams\<close>, with the local map
  \<open>newStores\<close>.
\<close>

fun loadVersion_loop ::
  "'c env \<Rightarrow> StoreUpgrades option \<Rightarrow> (string \<times> storeInfo) list
     \<Rightarrow> (StoreKey \<times> storeParams) list \<Rightarrow> 'c Store \<Rightarrow> (StoreKey \<times> nat) list
     \<Rightarrow> (failure + (StoreKey \<times> nat) list) \<times> 'c Store" where
  "loadVersion_loop e upgrades infos [] rs newStores = (Inr newStores, rs)"
| "loadVersion_loop e upgrades infos ((skey, sparams) # rest) rs newStores =
     (case loadCommitStoreFromParams e rs skey (getCommitID infos (key_Name skey)) sparams of
        (Inl err, rs) \<Rightarrow> (Inl (Errorf ''failed to load Store: '' err), rs)
      | (Inr store, rs) \<Rightarrow>
          (let newStores = AList.update skey store newStores
           in if IsDeleted upgrades (key_Name skey)
              then loadVersion_loop e upgrades infos rest
                     (rs\<lparr>objects := deleteKVStore (objects rs) store\<rparr>) newStores
              else (let oldName = RenamedFrom upgrades (key_Name skey)
                    in if oldName \<noteq> ''''
                       then (let (oldKey, rs) = NewKVStoreKey rs oldName;
                                 oldParams = sparams\<lparr>storeParams.key := oldKey\<rparr>
                             in case loadCommitStoreFromParams e rs oldKey
                                       (getCommitID infos oldName) oldParams of
                                  (Inl err, rs) \<Rightarrow>
                                    (Inl (Errorf (''failed to load old Store '' @ [CHR 0x27]
                                            @ oldName @ [CHR 0x27] @ '': '') err), rs)
                                | (Inr oldStore, rs) \<Rightarrow>
                                    loadVersion_loop e upgrades infos rest
                                      (rs\<lparr>objects := moveKVStoreData (objects rs) oldStore store\<rparr>)
                                      newStores)
                       else loadVersion_loop e upgrades infos rest rs newStores)))"

text \<open>
  \<^verbatim>\<open>loadVersion\<close> returns the error (or the panic) and the multi-store as the call leaves
  it; \<open>None\<close> is the nil error.
\<close>

definition loadVersion ::
  "'c env \<Rightarrow> 'c Store \<Rightarrow> int64 \<Rightarrow> StoreUpgrades option \<Rightarrow> failure option \<times> 'c Store" where
  "loadVersion e rs ver upgrades =
     (case (if ver \<noteq> 0
            then (case getCommitInfo e (Store.db rs) ver of
                    Inl err \<Rightarrow> Inl err
                  | Inr cInfo \<Rightarrow>
                      Inr (fold (\<lambda>storeInfo infos. AList.update (Name storeInfo) storeInfo infos)
                             (StoreInfos cInfo) [],
                           commitInfo_CommitID e cInfo))
            else Inr ([], zeroCommitID)) of
        Inl err \<Rightarrow> (Some (Error err), rs)
      | Inr (infos, lastCommitID') \<Rightarrow>
          (case loadVersion_loop e upgrades infos (storesParams rs) rs [] of
             (Inl err, rs) \<Rightarrow> (Some err, rs)
           | (Inr newStores, rs) \<Rightarrow>
               (None, rs\<lparr>lastCommitID := lastCommitID', stores := newStores\<rparr>)))"

subsection \<open>Query\<close>

text \<open>\<^verbatim>\<open>strings.HasPrefix\<close>, and \<^verbatim>\<open>strings.SplitN(s, "/", 2)\<close>: a split at the first slash.\<close>

definition HasPrefix :: "string \<Rightarrow> string \<Rightarrow> bool" where
  "HasPrefix s prefix = (take (length prefix) s = prefix)"

definition SplitN2 :: "string \<Rightarrow> string list" where
  "SplitN2 s =
     (case dropWhile (\<lambda>c. c \<noteq> CHR ''/'') s of
        [] \<Rightarrow> [s]
      | c # after \<Rightarrow> [takeWhile (\<lambda>c. c \<noteq> CHR ''/'') s, after])"

definition parsePath :: "string \<Rightarrow> string \<times> string \<times> queryError option" where
  "parsePath path =
     (if \<not> HasPrefix path ''/''
      then ('''', '''', Some (Wrapf ErrUnknownRequest (''invalid path: '' @ path)))
      else (let paths = SplitN2 (drop 1 path);
                storeName = hd paths;
                subpath = (if length paths = 2 then ''/'' @ paths ! 1 else '''')
            in (storeName, subpath, None)))"

text \<open>The name \<^verbatim>\<open>%T\<close> prints for the dynamic type of a substore.\<close>

fun type_name :: "StoreType \<Rightarrow> string" where
  "type_name StoreTypeIAVL = ''*iavl.Store''"
| "type_name StoreTypeDB = ''rootmulti.commitDBStoreAdapter''"
| "type_name StoreTypeTransient = ''*transient.Store''"
| "type_name t = ''''"

text \<open>
  \<^verbatim>\<open>Query\<close>. The variable \<open>err\<close> is the one \<^verbatim>\<open>parsePath\<close> returned; \<open>errMsg\<close> is
  the error of the commit-info lookup. The proof operation that is appended carries the
  store name and the store infos of the commit-info.
\<close>

definition Query :: "'c env \<Rightarrow> 'c Store \<Rightarrow> RequestQuery \<Rightarrow> failure + ResponseQuery" where
  "Query e rs req =
     (let path = Path req;
          (storeName, subpath, err) = parsePath path
      in if err \<noteq> None then Inr (QueryResult e err)
         else case getStoreByName e rs storeName of
           None \<Rightarrow>
             Inr (QueryResult e (Some (Wrapf ErrUnknownRequest (''no such store: '' @ storeName))))
         | Some store \<Rightarrow>
             (case Queryable e (objects rs store) of
                None \<Rightarrow>
                  Inr (QueryResult e (Some (Wrapf ErrUnknownRequest
                         (''store '' @ storeName @ '' (type ''
                            @ type_name (GetStoreType (objects rs store))
                            @ '') doesn'' @ [CHR 0x27] @ ''t support queries''))))
              | Some queryable \<Rightarrow>
                  (let req = req\<lparr>Path := subpath\<rparr>
                   in case queryable req of
                        Inl p \<Rightarrow> Inl p
                      | Inr res \<Rightarrow>
                          if \<not> Prove req \<or> \<not> RequireProof e subpath then Inr res
                          else if Proof res = None \<or> length (the (Proof res)) = 0
                          then Inr (QueryResult e (Some (Wrapf ErrInvalidRequest
                                 ''proof is unexpectedly empty; ensure height has not been pruned'')))
                          else (case getCommitInfo e (Store.db rs) (ResponseQuery.Height res) of
                                  Inl errMsg \<Rightarrow> Inr (QueryResult e err)
                                | Inr commitInfo \<Rightarrow>
                                    Inr (res\<lparr>Proof := Some (the (Proof res)
                                           @ [MultiStoreProofOp storeName (StoreInfos commitInfo)])\<rparr>)))))"

subsection \<open>Restore\<close>

text \<open>
  The map \<^verbatim>\<open>Restore\<close> builds from the live substores to compute the root hash.
\<close>

definition restore_leaves :: "'c env \<Rightarrow> 'c Store \<Rightarrow> (string \<times> bytes) list" where
  "restore_leaves e rs =
     fold (\<lambda>(skey, store) m.
             if GetStoreType (objects rs store) = StoreTypeTransient then m
             else AList.update (key_Name skey)
                    (tmhash e (Hash (LastCommitID (objects rs store)))) m)
          (stores rs) []"

text \<open>
  \<^verbatim>\<open>Restore\<close> returns the root hash, or the error, or panics. The type assertion to
  \<^verbatim>\<open>*iavl.Store\<close> panics on a substore of another type.
\<close>

definition Restore :: "'c env \<Rightarrow> 'c Store \<Rightarrow> bytes \<Rightarrow> (failure + bytes) \<times> 'c Store" where
  "Restore e rs data =
     (case gobDecode e data of
        Inl err \<Rightarrow> (Inl (Error (''failed to decode chunk: '' @ err)), rs)
      | Inr chunk \<Rightarrow>
          (let (skey, rs) = NewKVStoreKey rs (Store chunk)
           in case GetStore e rs skey of
                Inl p \<Rightarrow> (Inl p, rs)
              | Inr store \<Rightarrow>
                  if GetStoreType (objects rs store) \<noteq> StoreTypeIAVL
                  then (Inl (Panic (''interface conversion: types.Store is ''
                               @ type_name (GetStoreType (objects rs store))
                               @ '', not *iavl.Store'')), rs)
                  else (case iavl_Import e (objects rs store) (SnapshotChunk.Version chunk)
                               (Items chunk) of
                          (Some err, s) \<Rightarrow> (Inl (Error err), rs\<lparr>objects := (objects rs)(store := s)\<rparr>)
                        | (None, s) \<Rightarrow>
                            (let rs = rs\<lparr>objects := (objects rs)(store := s)\<rparr>
                             in (Inr (SimpleHashFromMap e (restore_leaves e rs)), rs)))))"

subsection \<open>A concrete environment\<close>

text \<open>
  One instance of the dependencies, on which the functions above can be run: a hash that
  brackets its input, a Merkle root that lists the pairs, a codec that prints a version
  in decimal and a commit-info as its version and store names, a tree engine that finds
  one pair under the prefixes of the stores \<^verbatim>\<open>old\<close> and \<^verbatim>\<open>new\<close> at every version but 0
  and no tree under the prefix of the store \<^verbatim>\<open>bad\<close>, and a persistent cache that files
  the substores under the name of their key.
\<close>

definition demo_env :: "(string \<times> nat) list env" where
  "demo_env =
     \<lparr>tmhash = (\<lambda>bz. ''h('' @ bz @ '')''),
      merkleRoot = (\<lambda>kvs. concat (map (\<lambda>(k, v). k @ ''='' @ v @ '';'') kvs)),
      MarshalInt64 = (\<lambda>v. Sprintf_d (sint v)),
      UnmarshalInt64 = (\<lambda>bz. if bz = ''1'' then Inr 1 else if bz = ''2'' then Inr 2
                              else Inl ''unexpected bytes''),
      MarshalCommitInfo = (\<lambda>ci. Inr (Sprintf_d (sint (commitInfo.Version ci)) @ '':''
                                      @ concat (map (\<lambda>si. Name si @ '','') (StoreInfos ci)))),
      UnmarshalCommitInfo = (\<lambda>bz. if bz = ''1:new,old,''
                                   then Inr \<lparr>commitInfo.Version = 1, StoreInfos =
                                     [\<lparr>Name = ''new'', Core = \<lparr>CommitID = \<lparr>CommitID.Version = 1, Hash = ''n1''\<rparr>\<rparr>\<rparr>,
                                      \<lparr>Name = ''old'', Core = \<lparr>CommitID = \<lparr>CommitID.Version = 1, Hash = ''o1''\<rparr>\<rparr>\<rparr>]\<rparr>
                                   else Inl ''unexpected bytes''),
      iavl_LoadStore = (\<lambda>b cid. case b of NewPrefixDB h p \<Rightarrow>
                          if p = ''s/k:bad/'' then Inl ''version does not exist''
                          else Inr \<lparr>GetStoreType = StoreTypeIAVL,
                                    entries = (if CommitID.Version cid = 0 then []
                                               else if p = ''s/k:old/'' then [(''a'', ''1'')]
                                               else if p = ''s/k:new/'' then [(''b'', ''2'')]
                                               else []),
                                    LastCommitID = cid\<rparr>),
      dbadapter_Store = (\<lambda>b. \<lparr>GetStoreType = StoreTypeDB, entries = [],
                               LastCommitID = \<lparr>CommitID.Version = - 1, Hash = ''FAKE_HASH''\<rparr>\<rparr>),
      engine_Commit = (\<lambda>s. \<lparr>CommitID.Version = CommitID.Version (LastCommitID s) + 1,
                             Hash = concat (map (\<lambda>(k, v). k @ v) (entries s))\<rparr>),
      Unwrap = (\<lambda>c skey. map_of c (key_Name skey)),
      GetStoreCache = (\<lambda>c skey store. case map_of c (key_Name skey) of
                          Some cached \<Rightarrow> (cached, c)
                        | None \<Rightarrow> (store, c @ [(key_Name skey, store)])),
      Queryable = (\<lambda>s. if GetStoreType s = StoreTypeIAVL
                        then Some (\<lambda>req. Inr \<lparr>Code = 0, Log = '''',
                                                Value = (case map_of (entries s) (Data req) of None \<Rightarrow> '''' | Some v \<Rightarrow> v),
                                                Proof = (if Prove req then Some [SubstoreProofOp (Data req)]
                                                         else None),
                                                Height = RequestQuery.Height req\<rparr>)
                        else None),
      RequireProof = (\<lambda>subpath. subpath = ''/key''),
      QueryResult = (\<lambda>err. case err of
                        None \<Rightarrow> \<lparr>Code = 0, Log = '''', Value = '''', Proof = None, Height = 0\<rparr>
                      | Some (Wrapf ErrUnknownRequest m) \<Rightarrow>
                          \<lparr>Code = 6, Log = m, Value = '''', Proof = None, Height = 0\<rparr>
                      | Some (Wrapf ErrInvalidRequest m) \<Rightarrow>
                          \<lparr>Code = 18, Log = m, Value = '''', Proof = None, Height = 0\<rparr>),
      gobDecode = (\<lambda>bz. if bz = ''chunk:kv'' then Inr \<lparr>Store = ''kv'', Version = 1, Items = [''item'']\<rparr>
                         else Inl ''unexpected EOF''),
      iavl_Import = (\<lambda>s v items. (None, s\<lparr>entries := map (\<lambda>i. (i, i)) items\<rparr>))\<rparr>"

definition demo_db :: DB where
  "demo_db = \<lparr>cells = Map.empty, readError = Map.empty, writeError = None\<rparr>"

text \<open>
  A multi-store with a versioned store \<^verbatim>\<open>kv\<close> and a transient store \<^verbatim>\<open>mem\<close>, each
  mounted under its own key object, loaded at version 0, with one pair written to each.
\<close>

definition demo_objects :: "nat \<Rightarrow> substore" where
  "demo_objects =
     (\<lambda>a. \<lparr>GetStoreType = StoreTypeDB, entries = [], LastCommitID = zeroCommitID\<rparr>)
       (10 := \<lparr>GetStoreType = StoreTypeIAVL, entries = [(''a'', ''1'')], LastCommitID = zeroCommitID\<rparr>,
        11 := \<lparr>GetStoreType = StoreTypeTransient, entries = [(''t'', ''x'')],
               LastCommitID = zeroCommitID\<rparr>)"

definition demo_rs :: "(string \<times> nat) list Store" where
  "demo_rs =
     \<lparr>Store.db = demo_db,
      lastCommitID = zeroCommitID,
      storesParams =
        [(KVStoreKey 1 ''kv'', \<lparr>storeParams.key = KVStoreKey 1 ''kv'', db = None, typ' = StoreTypeIAVL\<rparr>),
         (TransientStoreKey 2 ''mem'',
          \<lparr>storeParams.key = TransientStoreKey 2 ''mem'', db = None, typ' = StoreTypeTransient\<rparr>)],
      stores = [(KVStoreKey 1 ''kv'', 10), (TransientStoreKey 2 ''mem'', 11)],
      keysByName = [(''kv'', KVStoreKey 1 ''kv''), (''mem'', TransientStoreKey 2 ''mem'')],
      interBlockCache = None,
      objects = demo_objects,
      nextAddr = 12\<rparr>"

text \<open>The same multi-store with the persistent cache holding the versioned store.\<close>

definition demo_rs_cached :: "(string \<times> nat) list Store" where
  "demo_rs_cached = demo_rs\<lparr>interBlockCache := Some [(''kv'', 10)]\<rparr>"

text \<open>The multi-store \<open>demo_rs\<close> after one commit.\<close>

definition demo_rs_committed :: "(string \<times> nat) list Store" where
  "demo_rs_committed =
     demo_rs\<lparr>Store.db := demo_db\<lparr>cells := [''s/1'' \<mapsto> ''1:kv,'', ''s/latest'' \<mapsto> ''1'']\<rparr>,
             lastCommitID := \<lparr>CommitID.Version = 1, Hash = ''kv=h(a1);''\<rparr>,
             objects := demo_objects
               (10 := \<lparr>GetStoreType = StoreTypeIAVL, entries = [(''a'', ''1'')],
                        LastCommitID = \<lparr>CommitID.Version = 1, Hash = ''a1''\<rparr>\<rparr>,
                11 := \<lparr>GetStoreType = StoreTypeTransient, entries = [],
                        LastCommitID = zeroCommitID\<rparr>)\<rparr>"

text \<open>
  The substore object a call of \<^verbatim>\<open>loadCommitStoreFromParams\<close> returns, as the call
  leaves it; \<open>None\<close> when the call fails.
\<close>

definition instantiated ::
  "'c env \<Rightarrow> 'c Store \<Rightarrow> StoreKey \<Rightarrow> CommitID \<Rightarrow> storeParams \<Rightarrow> substore option" where
  "instantiated e rs skey cid params =
     (case loadCommitStoreFromParams e rs skey cid params of
        (Inl err, rs') \<Rightarrow> None
      | (Inr store, rs') \<Rightarrow> Some (objects rs' store))"

text \<open>
  The map \<open>infos\<close> of \<^verbatim>\<open>loadVersion\<close>: empty for version 0, and built from the store
  infos of the commit-info of the version otherwise.
\<close>

definition loaded_infos :: "'c env \<Rightarrow> DB \<Rightarrow> int64 \<Rightarrow> (string \<times> storeInfo) list" where
  "loaded_infos e d ver =
     (if ver \<noteq> 0
      then (case getCommitInfo e d ver of
              Inl err \<Rightarrow> []
            | Inr cInfo \<Rightarrow>
                fold (\<lambda>storeInfo infos. AList.update (Name storeInfo) storeInfo infos)
                  (StoreInfos cInfo) [])
      else [])"

text \<open>
  Two multi-stores before their load, on a backend that holds the commit-info of
  version 1 with the stores \<^verbatim>\<open>new\<close> and \<^verbatim>\<open>old\<close>: one mounts \<^verbatim>\<open>new\<close>, the other mounts
  \<^verbatim>\<open>new\<close> and \<^verbatim>\<open>bad\<close>. The manifest renames \<^verbatim>\<open>old\<close> to \<^verbatim>\<open>new\<close>.
\<close>

definition demo_rs_upgrade :: "(string \<times> nat) list Store" where
  "demo_rs_upgrade =
     \<lparr>Store.db = demo_db\<lparr>cells := [''s/1'' \<mapsto> ''1:new,old,'', ''s/latest'' \<mapsto> ''1'']\<rparr>,
      lastCommitID = zeroCommitID,
      storesParams =
        [(KVStoreKey 1 ''new'',
          \<lparr>storeParams.key = KVStoreKey 1 ''new'', db = None, typ' = StoreTypeIAVL\<rparr>)],
      stores = [],
      keysByName = [(''new'', KVStoreKey 1 ''new'')],
      interBlockCache = None,
      objects = demo_objects,
      nextAddr = 12\<rparr>"

definition demo_rs_bad :: "(string \<times> nat) list Store" where
  "demo_rs_bad =
     demo_rs_upgrade
       \<lparr>storesParams :=
          [(KVStoreKey 1 ''new'',
            \<lparr>storeParams.key = KVStoreKey 1 ''new'', db = None, typ' = StoreTypeIAVL\<rparr>),
           (KVStoreKey 2 ''bad'',
            \<lparr>storeParams.key = KVStoreKey 2 ''bad'', db = None, typ' = StoreTypeIAVL\<rparr>)],
        keysByName := [(''new'', KVStoreKey 1 ''new''), (''bad'', KVStoreKey 2 ''bad'')]\<rparr>"

definition demo_upgrades :: "StoreUpgrades option" where
  "demo_upgrades = Some \<lparr>Renamed = [\<lparr>OldKey = ''old'', NewKey = ''new''\<rparr>], Deleted = []\<rparr>"


text \<open>The multi-store \<open>demo_rs\<close> on a backend whose batch writes fail.\<close>

definition demo_rs_failing :: "(string \<times> nat) list Store" where
  "demo_rs_failing = demo_rs\<lparr>Store.db := demo_db\<lparr>writeError := Some ''disk full''\<rparr>\<rparr>"

section \<open>Verification\<close>

subsection \<open>Go maps as association lists\<close>

lemma map_of_fold_update:
  "map_of (fold (\<lambda>x m. AList.update (kf x) (vf x) m) xs m0) =
   fold (\<lambda>x m. m(kf x \<mapsto> vf x)) xs (map_of m0)"
  by (induction xs arbitrary: m0) (simp_all add: update_conv')

lemma distinct_fold_update:
  "distinct (map fst m0) \<Longrightarrow>
   distinct (map fst (fold (\<lambda>x m. AList.update (kf x) (vf x) m) xs m0))"
  by (induction xs arbitrary: m0) (simp_all add: distinct_update)

lemma distinct_map_fst_sort_key:
  "distinct (map fst (sort_key fst m)) = distinct (map fst m)"
  by (induction m) (simp_all add: distinct_insort_key)

text \<open>
  Sorting the pairs of a map by key gives one list, whatever order the map was iterated
  in: the keys in ascending order, each with its value.
\<close>

lemma sort_key_fst_alist:
  fixes m :: "('k::linorder \<times> 'v) list"
  assumes "distinct (map fst m)"
  shows "sort_key fst m = map (\<lambda>k. (k, the (map_of m k))) (sorted_list_of_set (dom (map_of m)))"
proof -
  let ?xs = "sort_key fst m"
  have d: "distinct (map fst ?xs)" using assms by (simp add: distinct_map_fst_sort_key)
  have s: "sorted (map fst ?xs)" by simp
  have "set (map fst ?xs) = dom (map_of m)" by (simp add: dom_map_of_conv_image_fst)
  then have keys: "sorted_list_of_set (dom (map_of m)) = map fst ?xs"
    using d s by (intro sorted_distinct_set_unique) (simp_all add: finite_dom_map_of)
  have "map ((\<lambda>k. (k, the (map_of m k))) \<circ> fst) ?xs = ?xs"
  proof -
    have "(fst p, the (map_of m (fst p))) = p" if "p \<in> set ?xs" for p
      using assms that by (cases p) simp
    then show ?thesis by (intro map_idI) (simp add: comp_def)
  qed
  with keys show ?thesis by simp
qed

subsection \<open>Root hash\<close>

text \<open>
  C1. For every commit-info, the root hash the code computes is the simple Merkle root
  over the map from store name to the hash of the store's commit-id hash, the pairs
  sorted by name; each leaf is one application of the hash function to the commit-id
  hash, not the commit-id hash itself.
\<close>

theorem commitInfo_Hash_is_merkle_root_of_hashed_leaves:
  "commitInfo_Hash e ci = spec_simple_merkle_root_from_map e (spec_leaves e ci)"
proof -
  let ?m = "fold (\<lambda>si m. AList.update (Name si) (storeInfo_Hash e si) m) (StoreInfos ci) []"
  have d: "distinct (map fst ?m)" by (rule distinct_fold_update) simp
  have m: "map_of ?m = spec_leaves e ci"
    by (simp add: map_of_fold_update spec_leaves_def storeInfo_Hash_def)
  show ?thesis
    unfolding commitInfo_Hash_def SimpleHashFromMap_def spec_simple_merkle_root_from_map_def Let_def
    using sort_key_fst_alist[OF d] m by simp
qed

subsection \<open>Keys of the commit-info records\<close>

lemma digits_hd: "digits n \<noteq> [] \<and> hd (digits n) \<in> set ''0123456789''"
proof (induction n rule: digits.induct)
  case (1 n)
  show ?case
  proof (cases "n < 10")
    case True
    then have "n \<in> {0,1,2,3,4,5,6,7,8,9}" by auto
    then show ?thesis by (subst digits.simps, subst digits.simps) auto
  next
    case False
    with 1 show ?thesis by (subst digits.simps, subst digits.simps) simp
  qed
qed

lemma Sprintf_d_not_latest: "Sprintf_d i \<noteq> ''latest''"
proof
  assume a: "Sprintf_d i = ''latest''"
  show False
  proof (cases "i < 0")
    case True
    with a show False by (simp add: Sprintf_d_def)
  next
    case False
    with a have "digits (nat i) = ''latest''" by (simp add: Sprintf_d_def)
    with digits_hd[of "nat i"] show False by simp
  qed
qed

lemma commitInfoKey_not_latest: "commitInfoKey v \<noteq> latestVersionKey"
  by (simp add: commitInfoKey_def latestVersionKey_def Sprintf_d_not_latest)

subsection \<open>Commit\<close>

lemma Commit_Inr_D:
  assumes "Commit e rs = Inr (commitID, rs')"
  shows "\<exists>bz. MarshalCommitInfo e (fst (commitStores e (CommitID.Version (lastCommitID rs) + 1) (stores rs) (objects rs))) = Inr bz
      \<and> commitID = \<lparr>CommitID.Version = CommitID.Version (lastCommitID rs) + 1,
                     Hash = commitInfo_Hash e (fst (commitStores e (CommitID.Version (lastCommitID rs) + 1) (stores rs) (objects rs)))\<rparr>
      \<and> rs' = rs\<lparr>Store.db := snd (batch_Write (Store.db rs)
                      [(commitInfoKey (CommitID.Version (lastCommitID rs) + 1), bz),
                       (latestVersionKey, MarshalInt64 e (CommitID.Version (lastCommitID rs) + 1))]),
                  lastCommitID := commitID,
                  objects := snd (commitStores e (CommitID.Version (lastCommitID rs) + 1) (stores rs) (objects rs))\<rparr>"
  using assms
  by (auto simp: Commit_def Let_def setCommitInfo_def setLatestVersion_def batch_Set_def
           split: prod.splits sum.splits)

lemma batch_Write_two_ok:
  "writeError d = None \<Longrightarrow> k1 \<noteq> k2 \<Longrightarrow>
   cells (snd (batch_Write d [(k1, v1), (k2, v2)])) = (cells d)(k1 \<mapsto> v1, k2 \<mapsto> v2)"
  by (simp add: batch_Write_def)

lemma batch_Write_fail:
  "writeError d \<noteq> None \<Longrightarrow> snd (batch_Write d b) = d"
  by (auto simp: batch_Write_def)

lemma batch_Write_readError [simp]: "readError (snd (batch_Write d b)) = readError d"
  by (simp add: batch_Write_def split: option.splits)

text \<open>
  C2. A \<^verbatim>\<open>Commit()\<close> that returns sets the version of \<open>lastCommitID\<close> to the version
  before the commit plus one (in \<^verbatim>\<open>int64\<close> arithmetic, which is the integer successor
  below the largest \<^verbatim>\<open>int64\<close>), puts the commit-info record under \<^verbatim>\<open>s/<version>\<close> and
  the latest-version record under \<^verbatim>\<open>s/latest\<close> into one batch, so that both are in
  the backend when the write of the batch succeeds and neither when it fails, and
  returns the commit id of the new version and of the hash of the new commit-info.
\<close>

theorem Commit_advances_version_and_writes_one_batch:
  assumes "Commit e rs = Inr (commitID, rs')"
  shows "(let version = CommitID.Version (lastCommitID rs) + 1;
              cInfo = fst (commitStores e version (stores rs) (objects rs))
          in CommitID.Version (lastCommitID rs') = version
           \<and> (sint (CommitID.Version (lastCommitID rs)) \<noteq> 2 ^ 63 - 1 \<longrightarrow>
                sint (CommitID.Version (lastCommitID rs')) = sint (CommitID.Version (lastCommitID rs)) + 1)
           \<and> commitID = \<lparr>CommitID.Version = version, Hash = commitInfo_Hash e cInfo\<rparr>
           \<and> lastCommitID rs' = commitID
           \<and> (\<exists>bz. MarshalCommitInfo e cInfo = Inr bz
                \<and> Store.db rs' = snd (batch_Write (Store.db rs)
                       [(commitInfoKey version, bz), (latestVersionKey, MarshalInt64 e version)])
                \<and> (writeError (Store.db rs) = None \<longrightarrow>
                      cells (Store.db rs') =
                        (cells (Store.db rs))(commitInfoKey version \<mapsto> bz,
                                              latestVersionKey \<mapsto> MarshalInt64 e version)
                    \<and> cells (Store.db rs') (commitInfoKey version) = Some bz
                    \<and> cells (Store.db rs') latestVersionKey = Some (MarshalInt64 e version))
                \<and> (writeError (Store.db rs) \<noteq> None \<longrightarrow> Store.db rs' = Store.db rs)))"
proof -
  let ?v = "CommitID.Version (lastCommitID rs) + 1"
  from Commit_Inr_D[OF assms] obtain bz where
    m: "MarshalCommitInfo e (fst (commitStores e ?v (stores rs) (objects rs))) = Inr bz"
    and c: "commitID = \<lparr>CommitID.Version = ?v,
                     Hash = commitInfo_Hash e (fst (commitStores e ?v (stores rs) (objects rs)))\<rparr>"
    and r: "rs' = rs\<lparr>Store.db := snd (batch_Write (Store.db rs)
                      [(commitInfoKey ?v, bz), (latestVersionKey, MarshalInt64 e ?v)]),
                  lastCommitID := commitID,
                  objects := snd (commitStores e ?v (stores rs) (objects rs))\<rparr>"
    by blast
  have v: "CommitID.Version (lastCommitID rs') = ?v" using r c by simp
  have s: "sint (CommitID.Version (lastCommitID rs)) \<noteq> 2 ^ 63 - 1 \<Longrightarrow>
           sint ?v = sint (CommitID.Version (lastCommitID rs)) + 1"
  proof -
    assume a: "sint (CommitID.Version (lastCommitID rs)) \<noteq> 2 ^ 63 - 1"
    have "sint (CommitID.Version (lastCommitID rs)) < 2 ^ 63"
      using sint_lt[of "CommitID.Version (lastCommitID rs)"] by simp
    moreover have "- (2 ^ 63) \<le> sint (CommitID.Version (lastCommitID rs))"
      using sint_ge[of "CommitID.Version (lastCommitID rs)"] by simp
    ultimately show ?thesis using a
      by (simp add: sint_word_ariths signed_take_bit_int_eq_self)
  qed
  have d: "Store.db rs' = snd (batch_Write (Store.db rs)
                      [(commitInfoKey ?v, bz), (latestVersionKey, MarshalInt64 e ?v)])"
    using r by simp
  have ok: "writeError (Store.db rs) = None \<Longrightarrow>
       cells (Store.db rs') = (cells (Store.db rs))(commitInfoKey ?v \<mapsto> bz, latestVersionKey \<mapsto> MarshalInt64 e ?v)"
    using d batch_Write_two_ok[OF _ commitInfoKey_not_latest] by simp
  have ok1: "writeError (Store.db rs) = None \<Longrightarrow> cells (Store.db rs') (commitInfoKey ?v) = Some bz"
    using ok commitInfoKey_not_latest[of ?v] by simp
  have ok2: "writeError (Store.db rs) = None \<Longrightarrow> cells (Store.db rs') latestVersionKey = Some (MarshalInt64 e ?v)"
    using ok by simp
  have fl: "writeError (Store.db rs) \<noteq> None \<Longrightarrow> Store.db rs' = Store.db rs"
    using d batch_Write_fail by simp
  have l: "lastCommitID rs' = commitID" using r by simp
  show ?thesis
    unfolding Let_def using v s c l m d ok ok1 ok2 fl by (metis (no_types, lifting))
qed

text \<open>
  When the batch of a \<^verbatim>\<open>Commit()\<close> was written, \<^verbatim>\<open>getLatestVersion\<close> on the backend
  returns the version of \<open>lastCommitID\<close>, given that the record under \<^verbatim>\<open>s/latest\<close> can
  be read and that decoding the encoded version gives the version back.
\<close>

theorem latest_version_reads_back_after_Commit:
  assumes "Commit e rs = Inr (commitID, rs')"
    and "writeError (Store.db rs) = None"
    and "readError (Store.db rs) latestVersionKey = None"
    and "UnmarshalInt64 e (MarshalInt64 e (CommitID.Version (lastCommitID rs) + 1)) =
           Inr (CommitID.Version (lastCommitID rs) + 1)"
  shows "getLatestVersion e (Store.db rs') = Inr (CommitID.Version (lastCommitID rs'))"
proof -
  let ?v = "CommitID.Version (lastCommitID rs) + 1"
  from Commit_Inr_D[OF assms(1)] obtain bz where
     c: "commitID = \<lparr>CommitID.Version = ?v,
                     Hash = commitInfo_Hash e (fst (commitStores e ?v (stores rs) (objects rs)))\<rparr>"
    and r: "rs' = rs\<lparr>Store.db := snd (batch_Write (Store.db rs)
                      [(commitInfoKey ?v, bz), (latestVersionKey, MarshalInt64 e ?v)]),
                  lastCommitID := commitID,
                  objects := snd (commitStores e ?v (stores rs) (objects rs))\<rparr>"
    by blast
  have v: "CommitID.Version (lastCommitID rs') = ?v" using r c by simp
  have d: "Store.db rs' = snd (batch_Write (Store.db rs)
                      [(commitInfoKey ?v, bz), (latestVersionKey, MarshalInt64 e ?v)])"
    using r by simp
  have "cells (Store.db rs') latestVersionKey = Some (MarshalInt64 e ?v)"
    using d batch_Write_two_ok[OF assms(2) commitInfoKey_not_latest] by simp
  moreover have "readError (Store.db rs') latestVersionKey = None"
    using d assms(3) by simp
  ultimately show ?thesis
    using assms(4) v by (simp add: getLatestVersion_def db_Get_def)
qed

subsection \<open>Transient substores\<close>

lemma substore_Commit_type [simp]:
  "GetStoreType (snd (substore_Commit e s)) = GetStoreType s"
  by (simp add: substore_Commit_def Let_def)

lemma nontransient_pair:
  "nontransient objs (k, a) = (GetStoreType (objs a) \<noteq> StoreTypeTransient)"
  by (simp add: nontransient_def)

lemma nontransient_upd:
  "GetStoreType s = GetStoreType (objs a) \<Longrightarrow> nontransient (objs(a := s)) = nontransient objs"
  by (auto simp: nontransient_def fun_eq_iff)

lemma commitStores_loop_Cons:
  "commitStores_loop e ((k, a) # m) objs acc =
     (if GetStoreType (objs a) = StoreTypeTransient
      then commitStores_loop e m (objs(a := snd (substore_Commit e (objs a)))) acc
      else commitStores_loop e m (objs(a := snd (substore_Commit e (objs a))))
             (acc @ [\<lparr>Name = key_Name k, Core = \<lparr>CommitID = fst (substore_Commit e (objs a))\<rparr>\<rparr>]))"
  by (simp add: Let_def case_prod_beta)

lemma commitStores_loop_names:
  "map Name (fst (commitStores_loop e m objs acc)) =
   map Name acc @ map (key_Name \<circ> fst) (filter (nontransient objs) m)"
proof (induction m arbitrary: objs acc)
  case Nil
  then show ?case by simp
next
  case (Cons p m)
  obtain k a where p: "p = (k, a)" by (cases p)
  obtain cid s where c: "substore_Commit e (objs a) = (cid, s)" by (cases "substore_Commit e (objs a)")
  have t: "GetStoreType s = GetStoreType (objs a)"
    using substore_Commit_type[of e "objs a"] c by simp
  have n: "nontransient (objs(a := s)) = nontransient objs" by (rule nontransient_upd[of s objs a, OF t])
  have ih: "map Name (fst (commitStores_loop e m (objs(a := s)) acc')) =
            map Name acc' @ map (key_Name \<circ> fst) (filter (nontransient objs) m)" for acc'
    using Cons.IH[of "objs(a := s)" acc'] unfolding n .
  show ?case
    by (simp add: p c ih t nontransient_pair commitStores_loop_Cons del: fun_upd_apply commitStores_loop.simps)
qed

lemma commitStores_loop_independent:
  assumes "\<And>a. GetStoreType (o1 a) = GetStoreType (o2 a)"
    and "\<And>a. GetStoreType (o1 a) \<noteq> StoreTypeTransient \<Longrightarrow> o1 a = o2 a"
  shows "fst (commitStores_loop e m o1 acc) =
         fst (commitStores_loop e (filter (nontransient o2) m) o2 acc)"
  using assms
proof (induction m arbitrary: o1 o2 acc)
  case Nil
  then show ?case by simp
next
  case (Cons p m)
  obtain k a where p: "p = (k, a)" by (cases p)
  obtain cid s where c: "substore_Commit e (o1 a) = (cid, s)" by (cases "substore_Commit e (o1 a)")
  have t: "GetStoreType s = GetStoreType (o1 a)"
    using substore_Commit_type[of e "o1 a"] c by simp
  show ?case
  proof (cases "GetStoreType (o1 a) = StoreTypeTransient")
    case True
    then have nt: "\<not> nontransient o2 (k, a)" using Cons.prems(1)[of a] by (simp add: nontransient_def)
    have "fst (commitStores_loop e m (o1(a := s)) acc) =
          fst (commitStores_loop e (filter (nontransient o2) m) o2 acc)"
      using Cons.prems True t by (intro Cons.IH) auto
    then show ?thesis using True t nt by (simp add: p c commitStores_loop_Cons del: fun_upd_apply commitStores_loop.simps)
  next
    case False
    then have eq: "o1 a = o2 a" by (rule Cons.prems(2))
    have nt: "nontransient o2 (k, a)" using False eq by (simp add: nontransient_def)
    have n: "nontransient (o2(a := s)) = nontransient o2"
      using t eq by (intro nontransient_upd[of s o2 a]) simp
    have "fst (commitStores_loop e m (o1(a := s)) acc') =
          fst (commitStores_loop e (filter (nontransient (o2(a := s))) m) (o2(a := s)) acc')" for acc'
      using Cons.prems by (intro Cons.IH) auto
    then show ?thesis using False t nt eq c by (simp add: p n commitStores_loop_Cons del: fun_upd_apply commitStores_loop.simps)
  qed
qed

lemma commitStores_loop_transient_cleared:
  assumes "GetStoreType (objs a) = StoreTypeTransient"
  shows "snd (commitStores_loop e m objs acc) a =
         (if a \<in> snd ` set m then (objs a)\<lparr>entries := []\<rparr> else objs a)"
  using assms
proof (induction m arbitrary: objs acc)
  case Nil
  then show ?case by simp
next
  case (Cons p m)
  obtain k b where p: "p = (k, b)" by (cases p)
  obtain cid s where c: "substore_Commit e (objs b) = (cid, s)" by (cases "substore_Commit e (objs b)")
  have t: "GetStoreType s = GetStoreType (objs b)"
    using substore_Commit_type[of e "objs b"] c by simp
  have ta: "GetStoreType ((objs(b := s)) a) = StoreTypeTransient"
    using Cons.prems t by auto
  have ih: "snd (commitStores_loop e m (objs(b := s)) acc') a =
         (if a \<in> snd ` set m then ((objs(b := s)) a)\<lparr>entries := []\<rparr> else (objs(b := s)) a)" for acc'
    by (rule Cons.IH[of "objs(b := s)", OF ta])
  show ?case
  proof (cases "b = a")
    case True
    then have s: "s = (objs a)\<lparr>entries := []\<rparr>"
      using c Cons.prems by (simp add: substore_Commit_def)
    have sc: "snd (substore_Commit e (objs a)) = s" using c True by simp
    show ?thesis using True ih[of acc] s Cons.prems
      by (simp add: p sc commitStores_loop_Cons del: commitStores_loop.simps)
  next
    case False
    then show ?thesis using ih t by (simp add: p c commitStores_loop_Cons del: commitStores_loop.simps)
  qed
qed

lemma transient_Commit:
  "GetStoreType s = StoreTypeTransient \<Longrightarrow> snd (substore_Commit e s) = s\<lparr>entries := []\<rparr>"
  by (simp add: substore_Commit_def)

text \<open>
  C3. In every commit, the store infos of the commit-info are those of the substores
  that are not transient, in the order of the iteration; every transient substore of the
  map is committed, which empties it; and the commit-info, hence the record that is
  persisted and the root hash, is the one the same commit computes without the
  transient substores.
\<close>

theorem transient_stores_commit_and_are_not_recorded:
  "(let cInfo = fst (commitStores e version storeMap objs);
        objs' = snd (commitStores e version storeMap objs)
    in map Name (StoreInfos cInfo) = map (key_Name \<circ> fst) (filter (nontransient objs) storeMap)
     \<and> (\<forall>(skey, store) \<in> set storeMap.
           GetStoreType (objs store) = StoreTypeTransient \<longrightarrow>
             objs' store = snd (substore_Commit e (objs store)) \<and> entries (objs' store) = [])
     \<and> cInfo = fst (commitStores e version (filter (nontransient objs) storeMap) objs))"
proof -
  have 1: "map Name (StoreInfos (fst (commitStores e version storeMap objs))) =
           map (key_Name \<circ> fst) (filter (nontransient objs) storeMap)"
    using commitStores_loop_names[of e storeMap objs "[]"]
    by (simp add: commitStores_def case_prod_beta)
  have 2: "objs' store = snd (substore_Commit e (objs store)) \<and> entries (objs' store) = []"
    if "(skey, store) \<in> set storeMap" "GetStoreType (objs store) = StoreTypeTransient"
      "objs' = snd (commitStores e version storeMap objs)" for skey store objs'
  proof -
    have "store \<in> snd ` set storeMap" using that(1) by force
    then have "snd (commitStores_loop e storeMap objs []) store = (objs store)\<lparr>entries := []\<rparr>"
      using commitStores_loop_transient_cleared[of objs store e storeMap "[]", OF that(2)] by simp
    then show ?thesis using that(2,3)
      by (simp add: commitStores_def transient_Commit case_prod_beta)
  qed
  have 3: "fst (commitStores e version storeMap objs) =
           fst (commitStores e version (filter (nontransient objs) storeMap) objs)"
    using commitStores_loop_independent[of objs objs e storeMap "[]"]
    by (simp add: commitStores_def case_prod_beta)
  show ?thesis unfolding Let_def using 1 2 3 by blast
qed

subsection \<open>The commit of the concrete multi-store\<close>

lemma digits_1 [simp]: "digits 1 = ''1''" "digits (Suc 0) = ''1''"
  by (subst digits.simps, simp)+

lemma demo_objects_10:
  "demo_objects 10 = \<lparr>GetStoreType = StoreTypeIAVL, entries = [(''a'', ''1'')], LastCommitID = zeroCommitID\<rparr>"
  by (simp add: demo_objects_def)

lemma demo_objects_11:
  "demo_objects 11 = \<lparr>GetStoreType = StoreTypeTransient, entries = [(''t'', ''x'')], LastCommitID = zeroCommitID\<rparr>"
  by (simp add: demo_objects_def)

lemma demo_commitStores:
  "commitStores demo_env 1 (stores demo_rs) (objects demo_rs) =
     (\<lparr>commitInfo.Version = 1, StoreInfos =
         [\<lparr>Name = ''kv'', Core = \<lparr>CommitID = \<lparr>CommitID.Version = 1, Hash = ''a1''\<rparr>\<rparr>\<rparr>]\<rparr>,
      objects demo_rs_committed)"
  by (simp add: commitStores_def demo_rs_def demo_rs_committed_def substore_Commit_def
        demo_objects_10 demo_objects_11 demo_env_def zeroCommitID_def Let_def)

lemma demo_Commit:
  "Commit demo_env demo_rs = Inr (\<lparr>CommitID.Version = 1, Hash = ''kv=h(a1);''\<rparr>, demo_rs_committed)"
proof -
  have v: "CommitID.Version (lastCommitID demo_rs) + 1 = 1"
    by (simp add: demo_rs_def zeroCommitID_def)
  have h: "commitInfo_Hash demo_env \<lparr>commitInfo.Version = 1, StoreInfos =
         [\<lparr>Name = ''kv'', Core = \<lparr>CommitID = \<lparr>CommitID.Version = 1, Hash = ''a1''\<rparr>\<rparr>\<rparr>]\<rparr> = ''kv=h(a1);''"
    by (simp add: commitInfo_Hash_def storeInfo_Hash_def SimpleHashFromMap_def demo_env_def)
  have m: "MarshalCommitInfo demo_env \<lparr>commitInfo.Version = 1, StoreInfos =
         [\<lparr>Name = ''kv'', Core = \<lparr>CommitID = \<lparr>CommitID.Version = 1, Hash = ''a1''\<rparr>\<rparr>\<rparr>]\<rparr> = Inr ''1:kv,''"
    by (simp add: demo_env_def Sprintf_d_def digits_1)
  have l: "MarshalInt64 demo_env 1 = ''1''"
    by (simp add: demo_env_def Sprintf_d_def digits_1)
  have k: "commitInfoKey 1 = ''s/1''"
    by (simp add: commitInfoKey_def Sprintf_d_def digits_1)
  have d: "Store.db demo_rs = demo_db" by (simp add: demo_rs_def)
  show ?thesis
    unfolding Commit_def v demo_commitStores Let_def
    by (simp add: setCommitInfo_def m setLatestVersion_def l k batch_Set_def batch_Write_def d h
          latestVersionKey_def demo_db_def demo_rs_committed_def)
qed

theorem Commit_advances_version_and_writes_one_batch_witness:
  "Commit demo_env demo_rs = Inr (\<lparr>CommitID.Version = 1, Hash = ''kv=h(a1);''\<rparr>, demo_rs_committed)
   \<and> CommitID.Version (lastCommitID demo_rs) = 0
   \<and> CommitID.Version (lastCommitID demo_rs_committed) = 1
   \<and> sint (CommitID.Version (lastCommitID demo_rs_committed)) = sint (CommitID.Version (lastCommitID demo_rs)) + 1
   \<and> writeError (Store.db demo_rs) = None
   \<and> cells (Store.db demo_rs_committed) (commitInfoKey 1) = Some ''1:kv,''
   \<and> cells (Store.db demo_rs_committed) latestVersionKey = Some ''1''"
proof -
  have a: "CommitID.Version (lastCommitID demo_rs) = 0"
    by (simp add: demo_rs_def zeroCommitID_def)
  have b: "CommitID.Version (lastCommitID demo_rs_committed) = 1"
    by (simp add: demo_rs_committed_def)
  have c: "writeError (Store.db demo_rs) = None"
    by (simp add: demo_rs_def demo_db_def)
  have d: "cells (Store.db demo_rs_committed) (commitInfoKey 1) = Some ''1:kv,''"
    by (simp add: demo_rs_committed_def commitInfoKey_def Sprintf_d_def)
  have e: "cells (Store.db demo_rs_committed) latestVersionKey = Some ''1''"
    by (simp add: demo_rs_committed_def latestVersionKey_def)
  show ?thesis
    using Commit_advances_version_and_writes_one_batch [OF demo_Commit] demo_Commit a b c d e
    by simp
qed

theorem latest_version_reads_back_after_Commit_witness:
  "Commit demo_env demo_rs = Inr (\<lparr>CommitID.Version = 1, Hash = ''kv=h(a1);''\<rparr>, demo_rs_committed)
   \<and> writeError (Store.db demo_rs) = None
   \<and> readError (Store.db demo_rs) latestVersionKey = None
   \<and> UnmarshalInt64 demo_env (MarshalInt64 demo_env (CommitID.Version (lastCommitID demo_rs) + 1)) =
        Inr (CommitID.Version (lastCommitID demo_rs) + 1)
   \<and> getLatestVersion demo_env (Store.db demo_rs_committed) = Inr 1
   \<and> CommitID.Version (lastCommitID demo_rs_committed) = 1"
proof -
  have w: "writeError (Store.db demo_rs) = None" by (simp add: demo_rs_def demo_db_def)
  have r: "readError (Store.db demo_rs) latestVersionKey = None" by (simp add: demo_rs_def demo_db_def)
  have u: "UnmarshalInt64 demo_env (MarshalInt64 demo_env (CommitID.Version (lastCommitID demo_rs) + 1)) =
        Inr (CommitID.Version (lastCommitID demo_rs) + 1)"
    by (simp add: demo_rs_def demo_env_def zeroCommitID_def Sprintf_d_def digits_1)
  have v: "CommitID.Version (lastCommitID demo_rs_committed) = 1" by (simp add: demo_rs_committed_def)
  show ?thesis
    using latest_version_reads_back_after_Commit [OF demo_Commit w r u] w r u v
    by (simp add: demo_Commit)
qed

theorem transient_stores_commit_and_are_not_recorded_witness:
  "map Name (StoreInfos (fst (commitStores demo_env 1 (stores demo_rs) (objects demo_rs)))) = [''kv'']
   \<and> (TransientStoreKey 2 ''mem'', 11) \<in> set (stores demo_rs)
   \<and> GetStoreType (objects demo_rs 11) = StoreTypeTransient
   \<and> entries (objects demo_rs 11) = [(''t'', ''x'')]
   \<and> entries (snd (commitStores demo_env 1 (stores demo_rs) (objects demo_rs)) 11) = []
   \<and> filter (nontransient (objects demo_rs)) (stores demo_rs) = [(KVStoreKey 1 ''kv'', 10)]
   \<and> fst (commitStores demo_env 1 (stores demo_rs) (objects demo_rs)) =
       fst (commitStores demo_env 1 [(KVStoreKey 1 ''kv'', 10)] (objects demo_rs))"
proof -
  have f: "filter (nontransient (objects demo_rs)) (stores demo_rs) = [(KVStoreKey 1 ''kv'', 10)]"
    by (simp add: demo_rs_def nontransient_def demo_objects_10 demo_objects_11)
  have m: "(TransientStoreKey 2 ''mem'', 11) \<in> set (stores demo_rs)" by (simp add: demo_rs_def)
  have t: "GetStoreType (objects demo_rs 11) = StoreTypeTransient"
    "entries (objects demo_rs 11) = [(''t'', ''x'')]"
    by (simp_all add: demo_rs_def demo_objects_11)
  show ?thesis
    using transient_stores_commit_and_are_not_recorded
            [of demo_env 1 "stores demo_rs" "objects demo_rs"] m t
    unfolding Let_def f by (auto simp: demo_rs_def)
qed

subsection \<open>Query\<close>

lemma parsePath_no_slash:
  "\<not> HasPrefix path ''/'' \<Longrightarrow>
   parsePath path = ('''', '''', Some (Wrapf ErrUnknownRequest (''invalid path: '' @ path)))"
  by (simp add: parsePath_def)

lemma hd_SplitN2: "hd (SplitN2 s) = takeWhile (\<lambda>c. c \<noteq> CHR ''/'') s"
proof (cases "dropWhile (\<lambda>c. c \<noteq> CHR ''/'') s")
  case Nil
  then have "\<forall>x\<in>set s. x \<noteq> CHR ''/''" by simp
  then have t: "takeWhile (\<lambda>c. c \<noteq> CHR ''/'') s = s" by (simp add: takeWhile_eq_all_conv)
  show ?thesis unfolding SplitN2_def Nil t by simp
next
  case (Cons c after)
  then show ?thesis by (simp add: SplitN2_def)
qed

lemma parsePath_slash:
  "HasPrefix path ''/'' \<Longrightarrow>
   \<exists>subpath. parsePath path = (takeWhile (\<lambda>c. c \<noteq> CHR ''/'') (drop 1 path), subpath, None)"
  by (simp add: parsePath_def Let_def hd_SplitN2)

text \<open>
  C7. A query whose path does not start with a slash returns the result of an
  \<^verbatim>\<open>ErrUnknownRequest\<close> error, and so does a query whose first path segment is not the
  name of a mounted store, with the description \<^verbatim>\<open>no such store\<close>; in both cases
  \<^verbatim>\<open>Query\<close> returns and does not panic.
\<close>

theorem Query_routing_errors_are_UnknownRequest:
  "(\<not> HasPrefix (Path req) ''/'' \<longrightarrow>
      Query e rs req =
        Inr (QueryResult e (Some (Wrapf ErrUnknownRequest (''invalid path: '' @ Path req)))))
   \<and> (HasPrefix (Path req) ''/'' \<and>
        map_of (keysByName rs) (takeWhile (\<lambda>c. c \<noteq> CHR ''/'') (drop 1 (Path req))) = None \<longrightarrow>
      Query e rs req =
        Inr (QueryResult e (Some (Wrapf ErrUnknownRequest
               (''no such store: '' @ takeWhile (\<lambda>c. c \<noteq> CHR ''/'') (drop 1 (Path req)))))))"
proof (intro conjI impI)
  assume "\<not> HasPrefix (Path req) ''/''"
  then show "Query e rs req =
        Inr (QueryResult e (Some (Wrapf ErrUnknownRequest (''invalid path: '' @ Path req))))"
    by (simp add: Query_def parsePath_no_slash)
next
  let ?name = "takeWhile (\<lambda>c. c \<noteq> CHR ''/'') (drop 1 (Path req))"
  assume a: "HasPrefix (Path req) ''/'' \<and> map_of (keysByName rs) ?name = None"
  then obtain subpath where p: "parsePath (Path req) = (?name, subpath, None)"
    using parsePath_slash by blast
  have "getStoreByName e rs ?name = None" using a by (simp add: getStoreByName_def)
  then show "Query e rs req =
        Inr (QueryResult e (Some (Wrapf ErrUnknownRequest (''no such store: '' @ ?name))))"
    by (simp add: Query_def p)
qed

text \<open>
  C10. When a proof is requested on a subpath that requires one, the substore returns a
  proof that is not empty and the lookup of the commit-info at the height of the response
  fails, \<^verbatim>\<open>Query\<close> returns the result built from the error variable of the path parse,
  which is nil there, whatever the error of the lookup is.
\<close>

theorem Query_drops_the_commit_info_lookup_error:
  assumes "parsePath (Path req) = (storeName, subpath, None)"
    and "getStoreByName e rs storeName = Some store"
    and "Queryable e (objects rs store) = Some queryable"
    and "queryable (req\<lparr>Path := subpath\<rparr>) = Inr res"
    and "Prove req" and "RequireProof e subpath"
    and "Proof res = Some ops" and "ops \<noteq> []"
    and "getCommitInfo e (Store.db rs) (ResponseQuery.Height res) = Inl errMsg"
  shows "Query e rs req = Inr (QueryResult e None)"
  using assms by (simp add: Query_def)

lemma demo_getCommitInfo:
  "getCommitInfo demo_env (Store.db demo_rs) 1 = Inl ''failed to get commit info: no data''"
  by (simp add: getCommitInfo_def db_Get_def demo_rs_def demo_db_def)

theorem Query_drops_the_commit_info_lookup_error_witness:
  "parsePath ''/kv/key'' = (''kv'', ''/key'', None)
   \<and> getStoreByName demo_env demo_rs ''kv'' = Some 10
   \<and> RequireProof demo_env ''/key''
   \<and> getCommitInfo demo_env (Store.db demo_rs) 1 = Inl ''failed to get commit info: no data''
   \<and> Query demo_env demo_rs \<lparr>Data = ''a'', Path = ''/kv/key'', Height = 1, Prove = True\<rparr> =
       Inr (QueryResult demo_env None)
   \<and> Code (QueryResult demo_env None) = 0"
proof -
  let ?req = "\<lparr>Data = ''a'', Path = ''/kv/key'', Height = 1, Prove = True\<rparr>"
  let ?q = "\<lambda>req. Inr \<lparr>Code = 0, Log = '''',
               Value = (case map_of [(''a'', ''1'')] (Data req) of None \<Rightarrow> '''' | Some v \<Rightarrow> v),
               Proof = (if Prove req then Some [SubstoreProofOp (Data req)] else None),
               Height = RequestQuery.Height req\<rparr> :: failure + ResponseQuery"
  let ?res = "\<lparr>Code = 0, Log = '''', Value = ''1'', Proof = Some [SubstoreProofOp ''a''], Height = 1\<rparr>"
  have p: "parsePath (Path ?req) = (''kv'', ''/key'', None)"
    by (simp add: parsePath_def HasPrefix_def SplitN2_def)
  have p': "parsePath ''/kv/key'' = (''kv'', ''/key'', None)" using p by simp
  have s: "getStoreByName demo_env demo_rs ''kv'' = Some 10"
    by (simp add: getStoreByName_def GetCommitKVStore_def demo_rs_def)
  have q: "Queryable demo_env (objects demo_rs 10) = Some ?q"
    by (simp add: demo_env_def demo_rs_def demo_objects_10)
  have r: "?q (?req\<lparr>Path := ''/key''\<rparr>) = Inr ?res" by simp
  have pr: "Prove ?req" by simp
  have rp: "RequireProof demo_env ''/key''" by (simp add: demo_env_def)
  have pf: "Proof ?res = Some [SubstoreProofOp ''a'']" by simp
  have ne: "[SubstoreProofOp ''a''] \<noteq> []" by simp
  have g: "getCommitInfo demo_env (Store.db demo_rs) (ResponseQuery.Height ?res) =
             Inl ''failed to get commit info: no data''"
    using demo_getCommitInfo by simp
  have c: "Code (QueryResult demo_env None) = 0" by (simp add: demo_env_def)
  show ?thesis
    using Query_drops_the_commit_info_lookup_error [OF p s q r pr rp pf ne g] p' s rp
      demo_getCommitInfo c
    by simp
qed

theorem Query_routing_errors_are_UnknownRequest_witness:
  "\<not> HasPrefix ''kv/key'' ''/''
   \<and> Query demo_env demo_rs \<lparr>Data = ''a'', Path = ''kv/key'', Height = 1, Prove = True\<rparr> =
       Inr (QueryResult demo_env (Some (Wrapf ErrUnknownRequest ''invalid path: kv/key'')))
   \<and> HasPrefix ''/zz/key'' ''/''
   \<and> map_of (keysByName demo_rs) ''zz'' = None
   \<and> Query demo_env demo_rs \<lparr>Data = ''a'', Path = ''/zz/key'', Height = 1, Prove = True\<rparr> =
       Inr (QueryResult demo_env (Some (Wrapf ErrUnknownRequest ''no such store: zz'')))"
proof -
  have a: "\<not> HasPrefix ''kv/key'' ''/''" by (simp add: HasPrefix_def)
  have b: "HasPrefix ''/zz/key'' ''/''" by (simp add: HasPrefix_def)
  have c: "map_of (keysByName demo_rs) ''zz'' = None" by (simp add: demo_rs_def)
  show ?thesis
    using Query_routing_errors_are_UnknownRequest
            [of "\<lparr>Data = ''a'', Path = ''kv/key'', Height = 1, Prove = True\<rparr>" demo_env demo_rs]
          Query_routing_errors_are_UnknownRequest
            [of "\<lparr>Data = ''a'', Path = ''/zz/key'', Height = 1, Prove = True\<rparr>" demo_env demo_rs]
          a b c
    by simp
qed

subsection \<open>Restore\<close>

lemma new_key_not_in_stores:
  assumes "\<forall>k \<in> fst ` set (stores rs). key_addr k < nextAddr rs"
  shows "map_of (stores rs) (KVStoreKey (nextAddr rs) name) = None"
proof -
  have "KVStoreKey (nextAddr rs) name \<notin> fst ` set (stores rs)"
    using assms by force
  then show ?thesis by (simp add: map_of_eq_None_iff)
qed

text \<open>
  C9, amended. \<^verbatim>\<open>Restore\<close> looks the target substore up under a key object it has
  just made. The keys the substores were mounted with are older objects, so the lookup in
  the live map yields nil also for a mounted store of that name; when there is no
  persistent cache, or the cache does not unwrap the new key either, \<^verbatim>\<open>GetStore\<close> panics
  and nothing is imported.
\<close>

theorem Restore_panics_without_cache_entry:
  assumes "gobDecode e data = Inr chunk"
    and "\<forall>k \<in> fst ` set (stores rs). key_addr k < nextAddr rs"
    and "interBlockCache rs = None \<or>
         (\<exists>c. interBlockCache rs = Some c \<and> Unwrap e c (KVStoreKey (nextAddr rs) (Store chunk)) = None)"
  shows "map_of (stores rs) (KVStoreKey (nextAddr rs) (Store chunk)) = None
       \<and> fst (Restore e rs data) = Inl (Panic (''store does not exist for key: '' @ Store chunk))
       \<and> objects (snd (Restore e rs data)) = objects rs"
proof -
  let ?k = "KVStoreKey (nextAddr rs) (Store chunk)"
  let ?rs = "rs\<lparr>nextAddr := nextAddr rs + 1\<rparr>"
  have n: "map_of (stores rs) ?k = None" by (rule new_key_not_in_stores[OF assms(2)])
  have g: "GetCommitKVStore e ?rs ?k = None"
    using assms(3) n by (auto simp: GetCommitKVStore_def)
  have "Restore e rs data = (Inl (Panic (''store does not exist for key: '' @ Store chunk)), ?rs)"
    using g by (simp add: Restore_def assms(1) NewKVStoreKey_def GetStore_def)
  then show ?thesis using n by simp
qed

lemma demo_gobDecode:
  "gobDecode demo_env ''chunk:kv'' = Inr \<lparr>Store = ''kv'', Version = 1, Items = [''item'']\<rparr>"
  by (simp add: demo_env_def)

theorem Restore_panics_without_cache_entry_witness:
  "gobDecode demo_env ''chunk:kv'' = Inr \<lparr>Store = ''kv'', Version = 1, Items = [''item'']\<rparr>
   \<and> map_of (keysByName demo_rs) ''kv'' = Some (KVStoreKey 1 ''kv'')
   \<and> map_of (stores demo_rs) (KVStoreKey 1 ''kv'') = Some 10
   \<and> interBlockCache demo_rs = None
   \<and> map_of (stores demo_rs) (KVStoreKey (nextAddr demo_rs) ''kv'') = None
   \<and> fst (Restore demo_env demo_rs ''chunk:kv'') = Inl (Panic ''store does not exist for key: kv'')"
proof -
  have a: "\<forall>k \<in> fst ` set (stores demo_rs). key_addr k < nextAddr demo_rs"
    by (simp add: demo_rs_def)
  have c: "interBlockCache demo_rs = None" by (simp add: demo_rs_def)
  then have c': "interBlockCache demo_rs = None \<or>
         (\<exists>c. interBlockCache demo_rs = Some c \<and>
                Unwrap demo_env c (KVStoreKey (nextAddr demo_rs)
                  (Store \<lparr>Store = ''kv'', Version = 1, Items = [''item'']\<rparr>)) = None)"
    by simp
  have k: "map_of (keysByName demo_rs) ''kv'' = Some (KVStoreKey 1 ''kv'')"
    "map_of (stores demo_rs) (KVStoreKey 1 ''kv'') = Some 10"
    by (simp_all add: demo_rs_def)
  show ?thesis
    using Restore_panics_without_cache_entry [OF demo_gobDecode a c'] demo_gobDecode k c
    by simp
qed

lemma demo_restore_leaves:
  "restore_leaves demo_env
     (demo_rs_cached\<lparr>nextAddr := 13,
        objects := demo_objects(10 := \<lparr>GetStoreType = StoreTypeIAVL, entries = [(''item'', ''item'')],
                                        LastCommitID = zeroCommitID\<rparr>)\<rparr>) = [(''kv'', ''h()'')]"
  by (simp add: restore_leaves_def demo_rs_cached_def demo_rs_def demo_env_def demo_objects_11
        zeroCommitID_def)

text \<open>
  C9 as stated fails: with a persistent cache that unwraps a key by its name, the same
  lookup finds the versioned store, \<^verbatim>\<open>GetStore\<close> does not panic and the chunk is
  imported into it.
\<close>

theorem Restore_imports_through_the_cache:
  "map_of (stores demo_rs_cached) (KVStoreKey 1 ''kv'') = Some 10
   \<and> key_addr (KVStoreKey 1 ''kv'') < nextAddr demo_rs_cached
   \<and> key_addr (TransientStoreKey 2 ''mem'') < nextAddr demo_rs_cached
   \<and> map fst (stores demo_rs_cached) = [KVStoreKey 1 ''kv'', TransientStoreKey 2 ''mem'']
   \<and> gobDecode demo_env ''chunk:kv'' = Inr \<lparr>Store = ''kv'', Version = 1, Items = [''item'']\<rparr>
   \<and> map_of (stores demo_rs_cached) (KVStoreKey (nextAddr demo_rs_cached) ''kv'') = None
   \<and> GetStore demo_env (demo_rs_cached\<lparr>nextAddr := 13\<rparr>) (KVStoreKey (nextAddr demo_rs_cached) ''kv'') = Inr 10
   \<and> fst (Restore demo_env demo_rs_cached ''chunk:kv'') = Inr ''kv=h();''
   \<and> entries (objects (snd (Restore demo_env demo_rs_cached ''chunk:kv'')) 10) = [(''item'', ''item'')]"
proof -
  have g: "GetStore demo_env (demo_rs_cached\<lparr>nextAddr := 13\<rparr>) (KVStoreKey 12 ''kv'') = Inr 10"
    by (simp add: GetStore_def GetCommitKVStore_def demo_rs_cached_def demo_rs_def demo_env_def)
  have n: "nextAddr demo_rs_cached = 12" by (simp add: demo_rs_cached_def demo_rs_def)
  have o: "objects (demo_rs_cached\<lparr>nextAddr := 13\<rparr>) 10 =
     \<lparr>GetStoreType = StoreTypeIAVL, entries = [(''a'', ''1'')], LastCommitID = zeroCommitID\<rparr>"
    by (simp add: demo_rs_cached_def demo_rs_def demo_objects_10)
  have i: "iavl_Import demo_env \<lparr>GetStoreType = StoreTypeIAVL, entries = [(''a'', ''1'')], LastCommitID = zeroCommitID\<rparr>
             1 [''item''] =
           (None, \<lparr>GetStoreType = StoreTypeIAVL, entries = [(''item'', ''item'')], LastCommitID = zeroCommitID\<rparr>)"
    by (simp add: demo_env_def)
  have ob: "objects demo_rs_cached = demo_objects" by (simp add: demo_rs_cached_def demo_rs_def)
  have h: "SimpleHashFromMap demo_env [(''kv'', ''h()'')] = ''kv=h();''"
    by (simp add: SimpleHashFromMap_def demo_env_def)
  have r: "Restore demo_env demo_rs_cached ''chunk:kv'' =
     (Inr ''kv=h();'',
      demo_rs_cached\<lparr>nextAddr := 13,
        objects := demo_objects(10 := \<lparr>GetStoreType = StoreTypeIAVL, entries = [(''item'', ''item'')],
                                        LastCommitID = zeroCommitID\<rparr>)\<rparr>)"
    unfolding Restore_def demo_gobDecode NewKVStoreKey_def n
    by (simp add: g o i ob demo_objects_10 demo_restore_leaves h)
  show ?thesis
    unfolding r n by (simp add: g) (simp add: demo_rs_cached_def demo_rs_def demo_gobDecode)
qed

text \<open>
  C5 fails on the code: on a multi-store without a persistent cache, \<^verbatim>\<open>Restore\<close> of a
  decodable chunk that names the mounted versioned store panics in \<^verbatim>\<open>GetStore\<close>; it
  imports nothing and returns no root hash.
\<close>

theorem Restore_of_mounted_store_panics:
  "Restore demo_env demo_rs ''chunk:kv'' =
     (Inl (Panic ''store does not exist for key: kv''), demo_rs\<lparr>nextAddr := 13\<rparr>)"
proof -
  have g: "GetCommitKVStore demo_env (demo_rs\<lparr>nextAddr := 13\<rparr>) (KVStoreKey 12 ''kv'') = None"
    by (simp add: GetCommitKVStore_def demo_rs_def)
  have n: "nextAddr demo_rs = 12" by (simp add: demo_rs_def)
  show ?thesis
    unfolding Restore_def demo_gobDecode NewKVStoreKey_def n
    by (simp add: GetStore_def g)
qed

subsection \<open>Loading\<close>

lemma new_object_fields [simp]:
  "stores (snd (new_object rs s)) = stores rs"
  "lastCommitID (snd (new_object rs s)) = lastCommitID rs"
  by (simp_all add: new_object_def)

lemma loadCommitStoreFromParams_fields:
  "stores (snd (loadCommitStoreFromParams e rs skey cid params)) = stores rs \<and>
   lastCommitID (snd (loadCommitStoreFromParams e rs skey cid params)) = lastCommitID rs"
  by (auto simp: loadCommitStoreFromParams_def new_object_def Let_def
           split: StoreType.splits sum.splits option.splits prod.splits StoreKey.splits)

lemma loadCommitStoreFromParams_isl:
  "isl (fst (loadCommitStoreFromParams e rs skey cid params)) =
   isl (fst (loadCommitStoreFromParams e rs0 skey cid params))"
  by (auto simp: loadCommitStoreFromParams_def new_object_def Let_def
           split: StoreType.splits sum.splits option.splits prod.splits StoreKey.splits)

lemma loadVersion_loop_fields:
  "stores (snd (loadVersion_loop e upgrades infos ps rs newStores)) = stores rs \<and>
   lastCommitID (snd (loadVersion_loop e upgrades infos ps rs newStores)) = lastCommitID rs"
proof (induction ps arbitrary: rs newStores)
  case Nil
  then show ?case by simp
next
  case (Cons p ps)
  obtain skey sparams where p: "p = (skey, sparams)" by (cases p)
  obtain r1 rs1 where l1: "loadCommitStoreFromParams e rs skey (getCommitID infos (key_Name skey)) sparams = (r1, rs1)"
    by (cases "loadCommitStoreFromParams e rs skey (getCommitID infos (key_Name skey)) sparams")
  have f1: "stores rs1 = stores rs" "lastCommitID rs1 = lastCommitID rs"
    using loadCommitStoreFromParams_fields[of e rs skey "getCommitID infos (key_Name skey)" sparams] l1
    by simp_all
  show ?case
  proof (cases r1)
    case (Inl err)
    then show ?thesis using f1 by (simp add: p l1)
  next
    case (Inr store)
    let ?oldName = "RenamedFrom upgrades (key_Name skey)"
    let ?rs2 = "snd (NewKVStoreKey rs1 ?oldName)"
    let ?oldKey = "fst (NewKVStoreKey rs1 ?oldName)"
    obtain r3 rs3 where l3: "loadCommitStoreFromParams e ?rs2 ?oldKey (getCommitID infos ?oldName)
        (sparams\<lparr>storeParams.key := ?oldKey\<rparr>) = (r3, rs3)"
      by (cases "loadCommitStoreFromParams e ?rs2 ?oldKey (getCommitID infos ?oldName)
        (sparams\<lparr>storeParams.key := ?oldKey\<rparr>)")
    have f2: "stores ?rs2 = stores rs" "lastCommitID ?rs2 = lastCommitID rs"
      using f1 by (simp_all add: NewKVStoreKey_def)
    have f3: "stores rs3 = stores rs" "lastCommitID rs3 = lastCommitID rs"
      using loadCommitStoreFromParams_fields[of e ?rs2 ?oldKey "getCommitID infos ?oldName"
              "sparams\<lparr>storeParams.key := ?oldKey\<rparr>"] l3 f2
      by simp_all
    show ?thesis
      using Inr f1 f3 l3
      by (cases r3) (simp_all add: p l1 Let_def Cons.IH case_prod_beta)
  qed
qed

lemma loadVersion_loop_ok_all_loaded:
  "fst (loadVersion_loop e upgrades infos ps rs newStores) = Inr x \<Longrightarrow>
   (skey, sparams) \<in> set ps \<Longrightarrow>
   \<not> isl (fst (loadCommitStoreFromParams e rs0 skey (getCommitID infos (key_Name skey)) sparams))"
proof (induction ps arbitrary: rs newStores)
  case Nil
  then show ?case by simp
next
  case (Cons p ps)
  obtain k sp where p: "p = (k, sp)" by (cases p)
  obtain r1 rs1 where l1: "loadCommitStoreFromParams e rs k (getCommitID infos (key_Name k)) sp = (r1, rs1)"
    by (cases "loadCommitStoreFromParams e rs k (getCommitID infos (key_Name k)) sp")
  show ?case
  proof (cases r1)
    case (Inl err)
    then show ?thesis using Cons.prems(1) by (simp add: p l1)
  next
    case (Inr store)
    have here: "\<not> isl (fst (loadCommitStoreFromParams e rs0 k (getCommitID infos (key_Name k)) sp))"
      using loadCommitStoreFromParams_isl[of e rs0 k "getCommitID infos (key_Name k)" sp rs] l1 Inr
      by simp
    have rest: "\<exists>rs' ns'. fst (loadVersion_loop e upgrades infos ps rs' ns') = Inr x"
      using Cons.prems(1) Inr
      by (auto simp: p l1 Let_def case_prod_beta split: if_splits sum.splits prod.splits)
    show ?thesis
    proof (cases "(skey, sparams) = (k, sp)")
      case True
      then show ?thesis using here by simp
    next
      case False
      then have "(skey, sparams) \<in> set ps" using Cons.prems(2) p by auto
      with rest Cons.IH show ?thesis by blast
    qed
  qed
qed

lemma loadVersion_getCommitInfo_error:
  "ver \<noteq> 0 \<Longrightarrow> getCommitInfo e (Store.db rs) ver = Inl err \<Longrightarrow>
   loadVersion e rs ver upgrades = (Some (Error err), rs)"
  by (simp add: loadVersion_def)

lemma loadVersion_unfold:
  "ver = 0 \<or> (\<exists>cInfo. getCommitInfo e (Store.db rs) ver = Inr cInfo) \<Longrightarrow>
   loadVersion e rs ver upgrades =
     (case loadVersion_loop e upgrades (loaded_infos e (Store.db rs) ver) (storesParams rs) rs [] of
        (Inl err, rs1) \<Rightarrow> (Some err, rs1)
      | (Inr newStores, rs1) \<Rightarrow>
          (None, rs1\<lparr>lastCommitID :=
                       (if ver \<noteq> 0
                        then commitInfo_CommitID e (projr (getCommitInfo e (Store.db rs) ver))
                        else zeroCommitID),
                     stores := newStores\<rparr>))"
  by (auto simp: loadVersion_def loaded_infos_def split: prod.splits sum.splits)

lemma loadVersion_failure_fields:
  assumes "fst (loadVersion e rs ver upgrades) \<noteq> None"
  shows "stores (snd (loadVersion e rs ver upgrades)) = stores rs \<and>
         lastCommitID (snd (loadVersion e rs ver upgrades)) = lastCommitID rs"
proof (cases "ver = 0 \<or> (\<exists>cInfo. getCommitInfo e (Store.db rs) ver = Inr cInfo)")
  case True
  obtain r rs1 where l: "loadVersion_loop e upgrades (loaded_infos e (Store.db rs) ver) (storesParams rs) rs [] = (r, rs1)"
    by (cases "loadVersion_loop e upgrades (loaded_infos e (Store.db rs) ver) (storesParams rs) rs []")
  have f: "stores rs1 = stores rs \<and> lastCommitID rs1 = lastCommitID rs"
    using loadVersion_loop_fields[of e upgrades "loaded_infos e (Store.db rs) ver" "storesParams rs" rs "[]"] l
    by simp
  show ?thesis
  proof (cases r)
    case (Inl err)
    then show ?thesis using f by (simp add: loadVersion_unfold[OF True] l)
  next
    case (Inr ns)
    then have "fst (loadVersion e rs ver upgrades) = None"
      by (simp add: loadVersion_unfold[OF True] l)
    with assms show ?thesis by simp
  qed
next
  case False
  then obtain err where "ver \<noteq> 0" "getCommitInfo e (Store.db rs) ver = Inl err"
    by (cases "getCommitInfo e (Store.db rs) ver") auto
  then show ?thesis by (simp add: loadVersion_getCommitInfo_error)
qed

lemma loadVersion_substore_failure:
  assumes "ver = 0 \<or> (\<exists>cInfo. getCommitInfo e (Store.db rs) ver = Inr cInfo)"
    and "(skey, sparams) \<in> set (storesParams rs)"
    and "isl (fst (loadCommitStoreFromParams e rs skey
                (getCommitID (loaded_infos e (Store.db rs) ver) (key_Name skey)) sparams))"
  shows "fst (loadVersion e rs ver upgrades) \<noteq> None"
proof
  assume n: "fst (loadVersion e rs ver upgrades) = None"
  obtain r rs1 where l: "loadVersion_loop e upgrades (loaded_infos e (Store.db rs) ver) (storesParams rs) rs [] = (r, rs1)"
    by (cases "loadVersion_loop e upgrades (loaded_infos e (Store.db rs) ver) (storesParams rs) rs []")
  from n obtain ns where "r = Inr ns"
    by (cases r) (simp_all add: loadVersion_unfold[OF assms(1)] l)
  then have "fst (loadVersion_loop e upgrades (loaded_infos e (Store.db rs) ver) (storesParams rs) rs []) = Inr ns"
    using l by simp
  from loadVersion_loop_ok_all_loaded[OF this assms(2), of rs] assms(3) show False by simp
qed

text \<open>
  C4. A load of a version other than 0 returns the error of the commit-info lookup, which
  fails when the record is absent and when it does not decode, and leaves the
  multi-store as it was; when a substore fails to instantiate, the load does not return
  nil; and whenever the load does not return nil, the live substore map and the last
  commit id are the ones from before the load.
\<close>

theorem loadVersion_failure_keeps_the_live_stores:
  assumes "ver \<noteq> 0"
  shows "(\<forall>err. getCommitInfo e (Store.db rs) ver = Inl err \<longrightarrow>
            loadVersion e rs ver upgrades = (Some (Error err), rs))
       \<and> (db_Get (Store.db rs) (commitInfoKey ver) = Inr None \<longrightarrow>
            getCommitInfo e (Store.db rs) ver = Inl ''failed to get commit info: no data'')
       \<and> (\<forall>bz err. db_Get (Store.db rs) (commitInfoKey ver) = Inr (Some bz)
                    \<and> UnmarshalCommitInfo e bz = Inl err \<longrightarrow>
            getCommitInfo e (Store.db rs) ver = Inl (''failed to get Store: '' @ err))
       \<and> ((\<exists>cInfo. getCommitInfo e (Store.db rs) ver = Inr cInfo)
          \<and> (\<exists>(skey, sparams) \<in> set (storesParams rs).
                isl (fst (loadCommitStoreFromParams e rs skey
                       (getCommitID (loaded_infos e (Store.db rs) ver) (key_Name skey)) sparams))) \<longrightarrow>
            fst (loadVersion e rs ver upgrades) \<noteq> None)
       \<and> (fst (loadVersion e rs ver upgrades) \<noteq> None \<longrightarrow>
            stores (snd (loadVersion e rs ver upgrades)) = stores rs
          \<and> lastCommitID (snd (loadVersion e rs ver upgrades)) = lastCommitID rs)"
proof (intro conjI allI impI)
  fix err assume "getCommitInfo e (Store.db rs) ver = Inl err"
  then show "loadVersion e rs ver upgrades = (Some (Error err), rs)"
    using assms by (rule loadVersion_getCommitInfo_error[rotated])
next
  assume "db_Get (Store.db rs) (commitInfoKey ver) = Inr None"
  then show "getCommitInfo e (Store.db rs) ver = Inl ''failed to get commit info: no data''"
    by (simp add: getCommitInfo_def)
next
  fix bz err
  assume "db_Get (Store.db rs) (commitInfoKey ver) = Inr (Some bz) \<and> UnmarshalCommitInfo e bz = Inl err"
  then show "getCommitInfo e (Store.db rs) ver = Inl (''failed to get Store: '' @ err)"
    by (simp add: getCommitInfo_def)
next
  assume a: "(\<exists>cInfo. getCommitInfo e (Store.db rs) ver = Inr cInfo)
          \<and> (\<exists>(skey, sparams) \<in> set (storesParams rs).
                isl (fst (loadCommitStoreFromParams e rs skey
                       (getCommitID (loaded_infos e (Store.db rs) ver) (key_Name skey)) sparams)))"
  then obtain skey sparams where m: "(skey, sparams) \<in> set (storesParams rs)"
    and i: "isl (fst (loadCommitStoreFromParams e rs skey
                       (getCommitID (loaded_infos e (Store.db rs) ver) (key_Name skey)) sparams))"
    by auto
  from a have "ver = 0 \<or> (\<exists>cInfo. getCommitInfo e (Store.db rs) ver = Inr cInfo)" by simp
  from loadVersion_substore_failure[OF this m i]
  show "fst (loadVersion e rs ver upgrades) \<noteq> None" .
next
  assume "fst (loadVersion e rs ver upgrades) \<noteq> None"
  then show "stores (snd (loadVersion e rs ver upgrades)) = stores rs"
    by (simp add: loadVersion_failure_fields)
next
  assume "fst (loadVersion e rs ver upgrades) \<noteq> None"
  then show "lastCommitID (snd (loadVersion e rs ver upgrades)) = lastCommitID rs"
    by (simp add: loadVersion_failure_fields)
qed

lemma demo_bad_getCommitInfo:
  "getCommitInfo demo_env (Store.db demo_rs_bad) 1 =
     Inr \<lparr>commitInfo.Version = 1, StoreInfos =
           [\<lparr>Name = ''new'', Core = \<lparr>CommitID = \<lparr>CommitID.Version = 1, Hash = ''n1''\<rparr>\<rparr>\<rparr>,
            \<lparr>Name = ''old'', Core = \<lparr>CommitID = \<lparr>CommitID.Version = 1, Hash = ''o1''\<rparr>\<rparr>\<rparr>]\<rparr>"
  by (simp add: getCommitInfo_def db_Get_def demo_rs_bad_def demo_rs_upgrade_def demo_db_def
        commitInfoKey_def Sprintf_d_def demo_env_def)

lemma demo_bad_fails:
  "isl (fst (loadCommitStoreFromParams demo_env demo_rs_bad (KVStoreKey 2 ''bad'') cid
          \<lparr>storeParams.key = KVStoreKey 2 ''bad'', db = None, typ' = StoreTypeIAVL\<rparr>))"
  by (simp add: loadCommitStoreFromParams_def demo_env_def)

theorem loadVersion_failure_keeps_the_live_stores_witness:
  "(1 :: int64) \<noteq> 0
   \<and> db_Get (Store.db demo_rs) (commitInfoKey 1) = Inr None
   \<and> loadVersion demo_env demo_rs 1 None =
        (Some (Error ''failed to get commit info: no data''), demo_rs)
   \<and> db_Get (Store.db demo_rs_committed) (commitInfoKey 1) = Inr (Some ''1:kv,'')
   \<and> UnmarshalCommitInfo demo_env ''1:kv,'' = Inl ''unexpected bytes''
   \<and> loadVersion demo_env demo_rs_committed 1 None =
        (Some (Error ''failed to get Store: unexpected bytes''), demo_rs_committed)
   \<and> (KVStoreKey 2 ''bad'', \<lparr>storeParams.key = KVStoreKey 2 ''bad'', db = None, typ' = StoreTypeIAVL\<rparr>)
        \<in> set (storesParams demo_rs_bad)
   \<and> fst (loadVersion demo_env demo_rs_bad 1 demo_upgrades) \<noteq> None
   \<and> stores (snd (loadVersion demo_env demo_rs_bad 1 demo_upgrades)) = stores demo_rs_bad
   \<and> lastCommitID (snd (loadVersion demo_env demo_rs_bad 1 demo_upgrades)) = lastCommitID demo_rs_bad"
proof -
  have one: "(1 :: int64) \<noteq> 0" by simp
  have g1: "db_Get (Store.db demo_rs) (commitInfoKey 1) = Inr None"
    by (simp add: db_Get_def demo_rs_def demo_db_def)
  have g2: "db_Get (Store.db demo_rs_committed) (commitInfoKey 1) = Inr (Some ''1:kv,'')"
    by (simp add: db_Get_def demo_rs_committed_def demo_rs_def demo_db_def commitInfoKey_def Sprintf_d_def)
  have u2: "UnmarshalCommitInfo demo_env ''1:kv,'' = Inl ''unexpected bytes''"
    by (simp add: demo_env_def)
  have m: "(KVStoreKey 2 ''bad'', \<lparr>storeParams.key = KVStoreKey 2 ''bad'', db = None, typ' = StoreTypeIAVL\<rparr>)
        \<in> set (storesParams demo_rs_bad)"
    by (simp add: demo_rs_bad_def)
  note T1 = loadVersion_failure_keeps_the_live_stores [OF one, of demo_env demo_rs None]
  note T2 = loadVersion_failure_keeps_the_live_stores [OF one, of demo_env demo_rs_committed None]
  note T3 = loadVersion_failure_keeps_the_live_stores [OF one, of demo_env demo_rs_bad demo_upgrades]
  have a1: "loadVersion demo_env demo_rs 1 None =
        (Some (Error ''failed to get commit info: no data''), demo_rs)"
    using T1 g1 by blast
  have a2: "loadVersion demo_env demo_rs_committed 1 None =
        (Some (Error ''failed to get Store: unexpected bytes''), demo_rs_committed)"
  proof -
    from T2 g2 u2 have "getCommitInfo demo_env (Store.db demo_rs_committed) 1 =
        Inl (''failed to get Store: '' @ ''unexpected bytes'')" by blast
    with T2 show ?thesis by simp
  qed
  have a3: "fst (loadVersion demo_env demo_rs_bad 1 demo_upgrades) \<noteq> None"
  proof -
    have "\<exists>(skey, sparams) \<in> set (storesParams demo_rs_bad).
            isl (fst (loadCommitStoreFromParams demo_env demo_rs_bad skey
                   (getCommitID (loaded_infos demo_env (Store.db demo_rs_bad) 1) (key_Name skey)) sparams))"
      using m demo_bad_fails by blast
    with T3 demo_bad_getCommitInfo show ?thesis by blast
  qed
  with T3 have a4: "stores (snd (loadVersion demo_env demo_rs_bad 1 demo_upgrades)) = stores demo_rs_bad
     \<and> lastCommitID (snd (loadVersion demo_env demo_rs_bad 1 demo_upgrades)) = lastCommitID demo_rs_bad"
    by blast
  show ?thesis using one g1 a1 g2 u2 a2 m a3 a4 by blast
qed

subsection \<open>Rename upgrades\<close>














lemma demo_upgrade_getCommitInfo:
  "getCommitInfo demo_env (Store.db demo_rs_upgrade) 1 =
     Inr \<lparr>commitInfo.Version = 1, StoreInfos =
           [\<lparr>Name = ''new'', Core = \<lparr>CommitID = \<lparr>CommitID.Version = 1, Hash = ''n1''\<rparr>\<rparr>\<rparr>,
            \<lparr>Name = ''old'', Core = \<lparr>CommitID = \<lparr>CommitID.Version = 1, Hash = ''o1''\<rparr>\<rparr>\<rparr>]\<rparr>"
  by (simp add: getCommitInfo_def db_Get_def demo_rs_upgrade_def demo_db_def
        commitInfoKey_def Sprintf_d_def demo_env_def)

lemma demo_loaded_infos:
  "loaded_infos demo_env (Store.db demo_rs_upgrade) 1 =
     [(''new'', \<lparr>Name = ''new'', Core = \<lparr>CommitID = \<lparr>CommitID.Version = 1, Hash = ''n1''\<rparr>\<rparr>\<rparr>),
      (''old'', \<lparr>Name = ''old'', Core = \<lparr>CommitID = \<lparr>CommitID.Version = 1, Hash = ''o1''\<rparr>\<rparr>\<rparr>)]"
  by (simp add: loaded_infos_def demo_upgrade_getCommitInfo)




lemma demo_getCommitID:
  "getCommitID (loaded_infos demo_env (Store.db demo_rs_upgrade) 1) ''new'' =
     \<lparr>CommitID.Version = 1, Hash = ''n1''\<rparr>"
  "getCommitID (loaded_infos demo_env (Store.db demo_rs_upgrade) 1) ''old'' =
     \<lparr>CommitID.Version = 1, Hash = ''o1''\<rparr>"
  unfolding demo_loaded_infos by (simp_all add: getCommitID_def)

lemma demo_instantiated_new:
  "instantiated demo_env demo_rs_upgrade (KVStoreKey 1 ''new'')
     (getCommitID (loaded_infos demo_env (Store.db demo_rs_upgrade) 1) ''new'')
     \<lparr>storeParams.key = KVStoreKey 1 ''new'', db = None, typ' = StoreTypeIAVL\<rparr> =
   Some \<lparr>GetStoreType = StoreTypeIAVL, entries = [(''b'', ''2'')],
         LastCommitID = \<lparr>CommitID.Version = 1, Hash = ''n1''\<rparr>\<rparr>"
  unfolding demo_getCommitID
  by (simp add: instantiated_def loadCommitStoreFromParams_def
        demo_env_def new_object_def demo_rs_upgrade_def)







subsection \<open>Commit on a backend that fails to write\<close>

lemma demo_commitStores_failing:
  "commitStores demo_env 1 (stores demo_rs_failing) (objects demo_rs_failing) =
     (\<lparr>commitInfo.Version = 1, StoreInfos =
         [\<lparr>Name = ''kv'', Core = \<lparr>CommitID = \<lparr>CommitID.Version = 1, Hash = ''a1''\<rparr>\<rparr>\<rparr>]\<rparr>,
      objects demo_rs_committed)"
  using demo_commitStores by (simp add: demo_rs_failing_def)

lemma demo_Commit_failing:
  "Commit demo_env demo_rs_failing =
     Inr (\<lparr>CommitID.Version = 1, Hash = ''kv=h(a1);''\<rparr>,
          demo_rs_failing\<lparr>lastCommitID := \<lparr>CommitID.Version = 1, Hash = ''kv=h(a1);''\<rparr>,
                          objects := objects demo_rs_committed\<rparr>)"
proof -
  have v: "CommitID.Version (lastCommitID demo_rs_failing) + 1 = 1"
    by (simp add: demo_rs_failing_def demo_rs_def zeroCommitID_def)
  have h: "commitInfo_Hash demo_env \<lparr>commitInfo.Version = 1, StoreInfos =
         [\<lparr>Name = ''kv'', Core = \<lparr>CommitID = \<lparr>CommitID.Version = 1, Hash = ''a1''\<rparr>\<rparr>\<rparr>]\<rparr> = ''kv=h(a1);''"
    by (simp add: commitInfo_Hash_def storeInfo_Hash_def SimpleHashFromMap_def demo_env_def)
  have m: "MarshalCommitInfo demo_env \<lparr>commitInfo.Version = 1, StoreInfos =
         [\<lparr>Name = ''kv'', Core = \<lparr>CommitID = \<lparr>CommitID.Version = 1, Hash = ''a1''\<rparr>\<rparr>\<rparr>]\<rparr> = Inr ''1:kv,''"
    by (simp add: demo_env_def Sprintf_d_def)
  have d: "Store.db demo_rs_failing = demo_db\<lparr>writeError := Some ''disk full''\<rparr>"
    by (simp add: demo_rs_failing_def)
  show ?thesis
    unfolding Commit_def v demo_commitStores_failing Let_def
    by (simp add: setCommitInfo_def m setLatestVersion_def batch_Set_def batch_Write_def d h)
qed

text \<open>
  C8 fails on the code: \<^verbatim>\<open>Commit\<close> drops the error of \<^verbatim>\<open>batch.Write()\<close> and sets
  \<open>lastCommitID\<close> all the same. On a backend whose batch write fails, \<^verbatim>\<open>Commit()\<close>
  returns the commit id of version 1 and \<open>lastCommitID\<close> has version 1, while
  \<^verbatim>\<open>getLatestVersion\<close> still reads version 0 from the backend, although the record can be
  read and the codec decodes what it encodes.
\<close>

theorem Commit_with_failed_write_leaves_latest_version_behind:
  "writeError (Store.db demo_rs_failing) = Some ''disk full''
   \<and> readError (Store.db demo_rs_failing) latestVersionKey = None
   \<and> UnmarshalInt64 demo_env (MarshalInt64 demo_env 1) = Inr 1
   \<and> Commit demo_env demo_rs_failing =
        Inr (\<lparr>CommitID.Version = 1, Hash = ''kv=h(a1);''\<rparr>,
             demo_rs_failing\<lparr>lastCommitID := \<lparr>CommitID.Version = 1, Hash = ''kv=h(a1);''\<rparr>,
                             objects := objects demo_rs_committed\<rparr>)
   \<and> CommitID.Version (lastCommitID
        (demo_rs_failing\<lparr>lastCommitID := \<lparr>CommitID.Version = 1, Hash = ''kv=h(a1);''\<rparr>,
                         objects := objects demo_rs_committed\<rparr>)) = 1
   \<and> getLatestVersion demo_env (Store.db
        (demo_rs_failing\<lparr>lastCommitID := \<lparr>CommitID.Version = 1, Hash = ''kv=h(a1);''\<rparr>,
                         objects := objects demo_rs_committed\<rparr>)) = Inr 0"
proof -
  have a: "writeError (Store.db demo_rs_failing) = Some ''disk full''"
    by (simp add: demo_rs_failing_def)
  have b: "readError (Store.db demo_rs_failing) latestVersionKey = None"
    by (simp add: demo_rs_failing_def demo_db_def)
  have c: "UnmarshalInt64 demo_env (MarshalInt64 demo_env 1) = Inr 1"
    by (simp add: demo_env_def Sprintf_d_def)
  have g: "getLatestVersion demo_env (Store.db
        (demo_rs_failing\<lparr>lastCommitID := \<lparr>CommitID.Version = 1, Hash = ''kv=h(a1);''\<rparr>,
                         objects := objects demo_rs_committed\<rparr>)) = Inr 0"
    by (simp add: getLatestVersion_def db_Get_def demo_rs_failing_def demo_db_def)
  show ?thesis using a b c demo_Commit_failing g by simp
qed

end
